theory Spec2Isabelle
  imports Main "HOL-Library.Word"
begin

section \<open>String primitives (llvm::StringRef and std::string)\<close>

text \<open>
  Strings are byte sequences.  The operations below follow the library routines the source
  calls: \<open>find_first_of\<close>, \<open>find_first_not_of\<close>, \<open>find\<close>, \<open>substr\<close>, \<open>ltrim\<close>,
  \<open>rtrim\<close> and \<open>trim\<close>.  A search result of \<open>npos\<close> is \<open>None\<close>.
\<close>

definition whitespace :: string where
  "whitespace = [CHR 0x20, CHR 0x09, CHR 0x0A, CHR 0x0B, CHR 0x0C, CHR 0x0D]"

definition is_ws :: "char \<Rightarrow> bool" where
  "is_ws c = (c \<in> set whitespace)"

text \<open>The scanning loop shared by the search routines: \<open>i\<close> is the position of the head.\<close>

fun first_index :: "(char \<Rightarrow> bool) \<Rightarrow> string \<Rightarrow> nat \<Rightarrow> nat option" where
  "first_index P [] i = None"
| "first_index P (c # cs) i = (if P c then Some i else first_index P cs (Suc i))"

definition find_first_of :: "string \<Rightarrow> string \<Rightarrow> nat \<Rightarrow> nat option" where
  "find_first_of chars s from =
     first_index (\<lambda>c. c \<in> set chars) (drop from s) (min from (length s))"

definition find_first_not_of :: "string \<Rightarrow> string \<Rightarrow> nat \<Rightarrow> nat option" where
  "find_first_not_of chars s from =
     first_index (\<lambda>c. c \<notin> set chars) (drop from s) (min from (length s))"

definition find_char :: "char \<Rightarrow> string \<Rightarrow> nat \<Rightarrow> nat option" where
  "find_char ch s from = first_index (\<lambda>c. c = ch) (drop from s) (min from (length s))"

definition substr :: "string \<Rightarrow> nat \<Rightarrow> nat \<Rightarrow> string" where
  "substr s start n = take n (drop start s)"

definition substr_from :: "string \<Rightarrow> nat \<Rightarrow> string" where
  "substr_from s start = drop start s"

definition ltrim :: "string \<Rightarrow> string" where
  "ltrim s = dropWhile is_ws s"

definition rtrim :: "string \<Rightarrow> string" where
  "rtrim s = rev (dropWhile is_ws (rev s))"

definition trim :: "string \<Rightarrow> string" where
  "trim s = rtrim (ltrim s)"

text \<open>\<open>stream.indent(n)\<close> writes \<open>n\<close> spaces.\<close>

definition indent_str :: "nat \<Rightarrow> string" where
  "indent_str n = replicate n (CHR 0x20)"

section \<open>XML escaping\<close>

definition g_special :: string where
  "g_special = [CHR 0x22, CHR 0x27, CHR ''<'', CHR ''>'', CHR ''&'']"

text \<open>The \<open>switch\<close> of the escaping loop; a character outside the five cases writes nothing.\<close>

definition entity :: "char \<Rightarrow> string" where
  "entity c =
     (if c = g_special ! 0 then ''&quot;''
      else if c = g_special ! 1 then ''&apos;''
      else if c = g_special ! 2 then ''&lt;''
      else if c = g_special ! 3 then ''&gt;''
      else if c = g_special ! 4 then ''&amp;''
      else [])"

lemma first_index_bounds:
  "first_index P xs i = Some p \<Longrightarrow> i \<le> p \<and> p < i + length xs"
proof (induction xs arbitrary: i)
  case Nil
  then show ?case by simp
next
  case (Cons c cs)
  show ?case
  proof (cases "P c")
    case True
    with Cons.prems show ?thesis by simp
  next
    case False
    with Cons.prems have "first_index P cs (Suc i) = Some p" by simp
    from Cons.IH [OF this] show ?thesis by simp
  qed
qed

lemma find_first_of_bounds:
  "find_first_of chars s from = Some p \<Longrightarrow> from \<le> p \<and> p < length s"
proof -
  assume a: "find_first_of chars s from = Some p"
  from first_index_bounds [OF a [unfolded find_first_of_def]]
  have b: "min from (length s) \<le> p" and c: "p < min from (length s) + length (drop from s)"
    by simp_all
  from c have "p < length s" by (simp add: min_def split: if_splits)
  moreover from b this have "from \<le> p" by (simp add: min_def split: if_splits)
  ultimately show ?thesis by simp
qed

text \<open>
  \<open>operator<<(raw_ostream&, const XMLEscape&)\<close>: the text written for a string, with the
  loop variable \<open>start\<close> as argument.  The first search of the source starts at position 0,
  which is the initial value of \<open>start\<close>.
\<close>

function EscapeXML_loop :: "string \<Rightarrow> nat \<Rightarrow> string" where
  "EscapeXML_loop s start =
     (case find_first_of g_special s start of
        None \<Rightarrow> substr_from s start
      | Some pos \<Rightarrow> substr s start (pos - start) @ entity (s ! pos) @ EscapeXML_loop s (pos + 1))"
  by pat_completeness auto
termination
proof (relation "measure (\<lambda>(s, start). length s - start)")
  show "wf (measure (\<lambda>(s, start). length s - start))" by simp
next
  fix s :: string and start pos :: nat
  assume "find_first_of g_special s start = Some pos"
  from find_first_of_bounds [OF this] have "start \<le> pos" and "pos < length s"
    by simp_all
  then have "length s - (pos + 1) < length s - start" by arith
  then show "((s, pos + 1), (s, start)) \<in> measure (\<lambda>(s, start). length s - start)"
    by simp
qed

declare EscapeXML_loop.simps [simp del]

definition EscapeXML :: "string \<Rightarrow> string" where
  "EscapeXML s = EscapeXML_loop s 0"

text \<open>
  The escaping as the specification words it: each of the five characters is replaced by its
  named entity, every other character is kept, in order.
\<close>

definition escape_char_spec :: "char \<Rightarrow> string" where
  "escape_char_spec c =
     (if c = CHR 0x22 then ''&quot;''
      else if c = CHR 0x27 then ''&apos;''
      else if c = CHR ''<'' then ''&lt;''
      else if c = CHR ''>'' then ''&gt;''
      else if c = CHR ''&'' then ''&amp;''
      else [c])"

definition EscapeXML_spec :: "string \<Rightarrow> string" where
  "EscapeXML_spec s = concat (map escape_char_spec s)"

section \<open>Paragraph model\<close>

datatype ParagraphType = Normal | List | VerbatimText | GDScript | CSharpCode

record Paragraph =
  Data :: "string list"
  Type :: ParagraphType

type_synonym Paragraphs = "Paragraph list"

text \<open>The constructor \<open>Paragraph(type)\<close>: no spans.\<close>

definition new_Paragraph :: "ParagraphType \<Rightarrow> Paragraph" where
  "new_Paragraph t = \<lparr>Data = [], Type = t\<rparr>"

text \<open>\<open>operator<<(raw_ostream&, ParagraphType)\<close>\<close>

fun type_name :: "ParagraphType \<Rightarrow> string" where
  "type_name VerbatimText = ''text''"
| "type_name GDScript = ''gdscript''"
| "type_name CSharpCode = ''csharp''"
| "type_name Normal = []"
| "type_name List = []"

definition Paragraph_empty :: "Paragraph \<Rightarrow> bool" where
  "Paragraph_empty p = list_all (\<lambda>d. ltrim d = []) (Data p)"

definition push_front :: "Paragraph \<Rightarrow> string \<Rightarrow> Paragraph" where
  "push_front p str =
     (case Data p of
        [] \<Rightarrow> p\<lparr>Data := [str]\<rparr>
      | first # rest \<Rightarrow>
          (case find_first_not_of whitespace first 0 of
             Some pos \<Rightarrow> p\<lparr>Data := str # substr_from first pos # rest\<rparr>
           | None \<Rightarrow> p\<lparr>Data := str # first # rest\<rparr>))"

text \<open>\<open>operator+=(Paragraph&, text)\<close>: one more span.\<close>

definition add_text :: "Paragraph \<Rightarrow> string \<Rightarrow> Paragraph" where
  "add_text para text = para\<lparr>Data := Data para @ [text]\<rparr>"

text \<open>\<open>operator+=(Paragraph&, Paragraph&&)\<close>: spliced only when the kinds agree.\<close>

definition add_paragraph :: "Paragraph \<Rightarrow> Paragraph \<Rightarrow> Paragraph" where
  "add_paragraph para text =
     (if Type para = Type text then para\<lparr>Data := Data para @ Data text\<rparr> else para)"

section \<open>Inline command expander\<close>

text \<open>\<open>Title(title)\<close>: the label of a section.\<close>

definition Title_label :: "string \<Rightarrow> string" where
  "Title_label title = ''[b]'' @ title @ '':[/b] ''"

text \<open>\<open>ParseReference(ref, className)\<close>\<close>

definition ParseReference :: "string \<Rightarrow> string \<Rightarrow> string" where
  "ParseReference ref className =
     (case find_char (CHR '':'') ref 0 of
        Some sep \<Rightarrow>
          (let type = substr ref 0 sep in
           if type = ''operator'' then
             (case find_char (CHR ''.'') ref (sep + 1) of
                Some end \<Rightarrow>
                  ''[operator '' @ substr ref (sep + 1) (end - sep) @ ''operator ''
                    @ substr_from ref (end + 1) @ '']''
              | None \<Rightarrow>
                  ''[operator '' @ className @ ''.operator '' @ substr_from ref (sep + 1) @ '']'')
           else if type = ''annotation'' \<or> type = ''constant'' \<or> type = ''enum''
                   \<or> type = ''member'' \<or> type = ''method'' \<or> type = ''constructor''
                   \<or> type = ''signal'' \<or> type = ''theme_item'' then
             (case find_char (CHR ''.'') ref (sep + 1) of
                Some end \<Rightarrow> ''['' @ type @ '' '' @ substr_from ref (sep + 1) @ '']''
              | None \<Rightarrow>
                  ''['' @ type @ '' '' @ className @ ''.'' @ substr_from ref (sep + 1) @ '']'')
           else ''['' @ ref @ '']'')
      | None \<Rightarrow> ''['' @ ref @ '']'')"

text \<open>
  The \<open>InlineCommandComment\<close> case of \<open>ParseComments\<close>: \<open>cmd\<close> is the command name,
  \<open>args\<close> the argument texts (\<open>getNumArgs\<close> is their number, \<open>getArgText(i)\<close> the
  \<open>i\<close>-th of them), \<open>result\<close> the paragraph collected so far.
\<close>

definition ParseInlineCommand :: "string \<Rightarrow> string \<Rightarrow> string list \<Rightarrow> Paragraph \<Rightarrow> Paragraph" where
  "ParseInlineCommand className cmd args result =
     (let numArgs = length args;
          arg = (if numArgs > 0 then args ! 0 else []);
          result1 =
            (if cmd = ''a'' then add_text result (''[param '' @ arg @ '']'')
             else if cmd = ''b'' then add_text result (''[b]'' @ arg @ ''[/b]'')
             else if cmd = ''c'' then add_text result (''[code]'' @ arg @ ''[/code]'')
             else if cmd = ''e'' \<or> cmd = ''em'' then add_text result (''[i]'' @ arg @ ''[/i]'')
             else if cmd = ''n'' then add_text result ''[br]''
             else if cmd = ''p'' then add_text result (''[member '' @ className @ ''.'' @ arg @ '']'')
             else if cmd = ''ref'' then add_text result (ParseReference arg className)
             else if arg \<noteq> [] then add_text result arg
             else result)
      in if numArgs > 1
         then foldl (\<lambda>r i. add_text r ('' '' @ args ! i)) result1 [1 ..< numArgs]
         else result1)"

section \<open>Comment tree\<close>

text \<open>
  The comment tree of the compiler front end, as far as the source reads it: the kind of a
  node, its command name (already resolved through the command traits), its argument texts
  and its children.  A parameter command carries the vararg flag, the parameter index
  (an \<open>unsigned\<close>) and the parameter name.
\<close>

datatype Comment =
    BlockCommandComment string "string list" "Comment list"
  | ParagraphComment "Comment list"
  | TextComment string
  | InlineCommandComment string "string list"
  | HTMLStartTagComment
  | HTMLEndTagComment
  | VerbatimBlockComment string "Comment list"
  | VerbatimLineComment string
  | VerbatimBlockLineComment string
  | ParamCommandComment bool "32 word" string "Comment list"
  | TParamCommandComment
  | FullComment "Comment list"
  | NoneComment

text \<open>
  \<open>ParseComments(comment, className, traits)\<close> on the children of \<open>comment\<close>;
  \<open>ParseCommentsLoop\<close> is the loop over the children with \<open>result\<close> as accumulator,
  \<open>ParseCommentsChild\<close> the \<open>switch\<close> on one child.
\<close>

fun ParseCommentsLoop :: "string \<Rightarrow> Comment list \<Rightarrow> Paragraph \<Rightarrow> Paragraph"
  and ParseCommentsChild :: "string \<Rightarrow> Comment \<Rightarrow> Paragraph \<Rightarrow> Paragraph" where
  "ParseCommentsLoop className [] result = result"
| "ParseCommentsLoop className (c # cs) result =
     ParseCommentsLoop className cs (ParseCommentsChild className c result)"
| "ParseCommentsChild className (BlockCommandComment cmd args cs) result =
     add_paragraph result (ParseCommentsLoop className cs (new_Paragraph Normal))"
| "ParseCommentsChild className (ParagraphComment cs) result =
     add_paragraph result (ParseCommentsLoop className cs (new_Paragraph Normal))"
| "ParseCommentsChild className (TextComment text) result = add_text result text"
| "ParseCommentsChild className (InlineCommandComment cmd args) result =
     ParseInlineCommand className cmd args result"
| "ParseCommentsChild className HTMLStartTagComment result = result"
| "ParseCommentsChild className HTMLEndTagComment result = result"
| "ParseCommentsChild className (VerbatimBlockComment cmd cs) result = result"
| "ParseCommentsChild className (VerbatimLineComment text) result = result"
| "ParseCommentsChild className (VerbatimBlockLineComment text) result = result"
| "ParseCommentsChild className (ParamCommandComment va idx name cs) result = result"
| "ParseCommentsChild className (FullComment cs) result = result"
| "ParseCommentsChild className TParamCommandComment result = result"
| "ParseCommentsChild className NoneComment result = result"

definition ParseComments :: "Comment list \<Rightarrow> string \<Rightarrow> Paragraph" where
  "ParseComments children className = ParseCommentsLoop className children (new_Paragraph Normal)"

section \<open>Documentation record\<close>

record StatusTag =
  IsTagPresent :: bool
  Message :: Paragraph

record Tutorial =
  URL :: string
  Title :: Paragraph

record Parameters =
  Name :: string
  Description :: Paragraph

record ParsedDocumentation =
  Detailed :: "Paragraph list"
  Brief :: Paragraph
  Author :: "Paragraph list"
  Copyright :: "Paragraph list"
  Since :: "Paragraph list"
  Version :: "Paragraph list"
  Preconditions :: "Paragraph list"
  Postconditions :: "Paragraph list"
  ReturnDesc :: Paragraph
  Deprecated :: StatusTag
  Experimental :: StatusTag
  Tutorials :: "Tutorial list"
  ParameterDescs :: "Parameters list"
  ReturnValues :: "Parameters list"

text \<open>The default constructors.\<close>

definition new_StatusTag :: StatusTag where
  "new_StatusTag = \<lparr>IsTagPresent = False, Message = new_Paragraph Normal\<rparr>"

definition new_Parameters :: Parameters where
  "new_Parameters = \<lparr>Name = [], Description = new_Paragraph Normal\<rparr>"

definition new_ParsedDocumentation :: ParsedDocumentation where
  "new_ParsedDocumentation =
     \<lparr>Detailed = [], Brief = new_Paragraph Normal, Author = [], Copyright = [], Since = [],
      Version = [], Preconditions = [], Postconditions = [], ReturnDesc = new_Paragraph Normal,
      Deprecated = new_StatusTag, Experimental = new_StatusTag, Tutorials = [],
      ParameterDescs = [], ReturnValues = []\<rparr>"

section \<open>Comment classifier\<close>

text \<open>The macro \<open>ADMONITION\<close>; \<open>nbsp\<close> is the no-break space in UTF-8.\<close>

definition nbsp :: string where
  "nbsp = [CHR 0xC2, CHR 0xA0]"

definition ADMONITION :: "Paragraph \<Rightarrow> string \<Rightarrow> string \<Rightarrow> string \<Rightarrow> Paragraph" where
  "ADMONITION paragraph title color symbol =
     push_front paragraph
       (''[color='' @ color @ '']'' @ nbsp @ symbol @ nbsp @ nbsp @ ''[b]'' @ title
          @ '':[/b][/color] '')"

text \<open>
  The search loop of the \<open>tutorial\<close> branch: the position of the first span that is not
  blank, or the length of the list (the \<open>end\<close> iterator) when there is none.
\<close>

fun find_nonblank :: "string list \<Rightarrow> nat \<Rightarrow> nat" where
  "find_nonblank [] i = i"
| "find_nonblank (str # rest) i = (if ltrim str \<noteq> [] then i else find_nonblank rest (Suc i))"

text \<open>
  \<open>ParsedDocumentation::ParseBlock\<close> for a block command with name \<open>command\<close>, argument
  texts \<open>args\<close> and children \<open>children\<close>; the record and \<open>hasBriefTag\<close> are passed and
  returned.
\<close>

definition ParseBlock ::
  "string \<Rightarrow> string \<Rightarrow> string list \<Rightarrow> Comment list \<Rightarrow> ParsedDocumentation \<Rightarrow> bool
     \<Rightarrow> ParsedDocumentation \<times> bool" where
  "ParseBlock className command args children doc hasBriefTag =
     (let paragraph = ParseComments children className in
      if command = ''author'' \<or> command = ''authors'' then
        (doc\<lparr>Author := Author doc @ [paragraph]\<rparr>, hasBriefTag)
      else if command = ''attention'' then
        (doc\<lparr>Detailed := Detailed doc
           @ [ADMONITION paragraph ''Attention'' ''aa6600'' [CHR 0xE2, CHR 0x9A, CHR 0xA0]]\<rparr>,
         hasBriefTag)
      else if command = ''brief'' then
        (if \<not> Paragraph_empty (Brief doc) then
           (if \<not> hasBriefTag then
              (if Detailed doc = []
               then doc\<lparr>Detailed := Detailed doc @ [Brief doc], Brief := paragraph\<rparr>
               else doc\<lparr>Detailed := Brief doc # Detailed doc, Brief := paragraph\<rparr>)
            else doc\<lparr>Brief := add_paragraph (Brief doc) paragraph\<rparr>)
         else doc\<lparr>Brief := paragraph\<rparr>,
         True)
      else if command = ''bug'' then
        (doc\<lparr>Detailed := Detailed doc
           @ [ADMONITION paragraph ''Bug'' ''dd3311'' [CHR 0xE2, CHR 0x98, CHR 0xA0]]\<rparr>,
         hasBriefTag)
      else if command = ''copyright'' then
        (doc\<lparr>Copyright := Copyright doc @ [paragraph]\<rparr>, hasBriefTag)
      else if command = ''deprecated'' then
        (doc\<lparr>Deprecated := \<lparr>IsTagPresent = True, Message = paragraph\<rparr>\<rparr>, hasBriefTag)
      else if command = ''experimental'' then
        (doc\<lparr>Experimental := \<lparr>IsTagPresent = True, Message = paragraph\<rparr>\<rparr>, hasBriefTag)
      else if command = ''li'' then
        (doc\<lparr>Detailed := Detailed doc @ [paragraph\<lparr>Type := List\<rparr>]\<rparr>, hasBriefTag)
      else if command = ''note'' then
        (doc\<lparr>Detailed := Detailed doc
           @ [ADMONITION paragraph ''Note'' ''008855'' [CHR 0xE2, CHR 0x98, CHR 0x86]]\<rparr>,
         hasBriefTag)
      else if command = ''remark'' then
        (doc\<lparr>Detailed := Detailed doc
           @ [ADMONITION paragraph ''Remark'' ''0077cc'' [CHR 0xE2, CHR 0x98, CHR 0x85]]\<rparr>,
         hasBriefTag)
      else if command = ''since'' then
        (doc\<lparr>Since := Since doc @ [paragraph]\<rparr>, hasBriefTag)
      else if command = ''par'' then
        (let paragraph' =
               (if length args > 0 then push_front paragraph (Title_label (args ! 0))
                else paragraph)
         in (doc\<lparr>Detailed := Detailed doc @ [paragraph']\<rparr>, hasBriefTag))
      else if command = ''pre'' then
        (doc\<lparr>Preconditions := Preconditions doc @ [paragraph]\<rparr>, hasBriefTag)
      else if command = ''pos'' then
        (doc\<lparr>Postconditions := Postconditions doc @ [paragraph]\<rparr>, hasBriefTag)
      else if command = ''result'' \<or> command = ''return'' \<or> command = ''returns'' then
        (doc\<lparr>ReturnDesc := add_paragraph (ReturnDesc doc) paragraph\<rparr>, hasBriefTag)
      else if command = ''retval'' then
        (if length args > 0
         then (doc\<lparr>ReturnValues := ReturnValues doc
                 @ [\<lparr>Name = args ! 0, Description = paragraph\<rparr>]\<rparr>, hasBriefTag)
         else (doc\<lparr>ReturnValues := ReturnValues doc
                 @ [\<lparr>Name = [], Description = paragraph\<rparr>]\<rparr>, hasBriefTag))
      else if command = ''todo'' then
        (doc\<lparr>Detailed := Detailed doc
           @ [ADMONITION paragraph ''TODO'' ''aa44dd''
                [CHR 0xF0, CHR 0x9F, CHR 0x97, CHR 0xB9, CHR 0xEF, CHR 0xB8, CHR 0x8E]]\<rparr>,
         hasBriefTag)
      else if command = ''tutorial'' then
        (let it = find_nonblank (Data paragraph) 0 in
         if it \<noteq> length (Data paragraph) then
           (let str = trim (Data paragraph ! it) in
            case find_first_of whitespace str 0 of
              None \<Rightarrow>
                (doc\<lparr>Tutorials := Tutorials doc
                   @ [\<lparr>URL = str,
                       Title = paragraph\<lparr>Data := take it (Data paragraph)
                                 @ drop (Suc it) (Data paragraph)\<rparr>\<rparr>]\<rparr>,
                 hasBriefTag)
            | Some pos \<Rightarrow>
                (doc\<lparr>Tutorials := Tutorials doc
                   @ [\<lparr>URL = substr str 0 pos,
                       Title = paragraph\<lparr>Data := (Data paragraph)
                                 [it := ltrim (substr_from str (pos + 1))]\<rparr>\<rparr>]\<rparr>,
                 hasBriefTag))
         else (doc, hasBriefTag))
      else if command = ''version'' then
        (doc\<lparr>Version := Version doc @ [paragraph]\<rparr>, hasBriefTag)
      else if command = ''warning'' then
        (doc\<lparr>Detailed := Detailed doc
           @ [ADMONITION paragraph ''Warning'' ''ee0022'' [CHR 0xE2, CHR 0x9A, CHR 0xA0]]\<rparr>,
         hasBriefTag)
      else (doc\<lparr>Detailed := Detailed doc @ [paragraph]\<rparr>, hasBriefTag))"

text \<open>
  \<open>ParsedDocumentation::ParseVerbatim\<close>.  \<open>skip_to_line\<close> is the loop that advances
  \<open>lineIt\<close> to the first child that is a verbatim block line; \<open>add_lines\<close> is the final
  loop over the children from \<open>lineIt\<close> on.
\<close>

fun skip_to_line :: "Comment list \<Rightarrow> Comment list" where
  "skip_to_line [] = []"
| "skip_to_line (VerbatimBlockLineComment text # rest) = VerbatimBlockLineComment text # rest"
| "skip_to_line (c # rest) = skip_to_line rest"

fun add_lines :: "Comment list \<Rightarrow> Paragraph \<Rightarrow> Paragraph" where
  "add_lines [] para = para"
| "add_lines (VerbatimBlockLineComment text # rest) para = add_lines rest (add_text para text)"
| "add_lines (c # rest) para = add_lines rest para"

definition ParseVerbatim :: "string \<Rightarrow> Comment list \<Rightarrow> ParsedDocumentation \<Rightarrow> ParsedDocumentation" where
  "ParseVerbatim command children doc =
     (let (paraType, lineIt) =
            (if command = ''code'' then
               (case skip_to_line children of
                  VerbatimBlockLineComment text # rest \<Rightarrow>
                    (let codeType = trim text in
                     if codeType = ''{.gd}'' then (GDScript, rest)
                     else if codeType = ''{.cs}'' then (CSharpCode, rest)
                     else (VerbatimText, VerbatimBlockLineComment text # rest))
                | other \<Rightarrow> (VerbatimText, other))
             else (VerbatimText, children))
      in doc\<lparr>Detailed := Detailed doc @ [add_lines lineIt (new_Paragraph paraType)]\<rparr>)"

text \<open>\<open>std::vector::resize\<close> with default-constructed new elements.\<close>

definition resize :: "Parameters list \<Rightarrow> nat \<Rightarrow> Parameters list" where
  "resize v n = take n v @ replicate (n - length v) new_Parameters"

text \<open>
  The constructor \<open>ParsedDocumentation(className, doc, traits)\<close>.  \<open>doc\<close> is the list of
  children of the full comment, or \<open>None\<close> for a null pointer.  \<open>ParseTopLevel\<close> is the
  \<open>switch\<close> on one child, \<open>ParseTopLevelLoop\<close> the loop.

  The local variable \<open>hasBriefTag\<close> is declared without an initialiser, so its first read
  yields an indeterminate value; that value is the argument \<open>hasBriefTag\<close> of
  \<open>ParsedDocumentation_ctor\<close>.

  The parameter index is an \<open>unsigned\<close>, and \<open>idx+1\<close> is computed in that type.  Indexing
  the vector beyond its size has no defined result: the model returns \<open>None\<close> there.
\<close>

fun ParseTopLevel ::
  "string \<Rightarrow> Comment \<Rightarrow> ParsedDocumentation \<times> bool \<Rightarrow> (ParsedDocumentation \<times> bool) option" where
  "ParseTopLevel className (BlockCommandComment command args children) (doc, hasBriefTag) =
     Some (ParseBlock className command args children doc hasBriefTag)"
| "ParseTopLevel className (ParagraphComment children) (doc, hasBriefTag) =
     (if \<not> hasBriefTag \<and> Paragraph_empty (Brief doc)
      then Some (doc\<lparr>Brief := ParseComments children className\<rparr>, hasBriefTag)
      else Some (doc\<lparr>Detailed := Detailed doc @ [ParseComments children className]\<rparr>,
                 hasBriefTag))"
| "ParseTopLevel className (VerbatimBlockComment command children) (doc, hasBriefTag) =
     Some (ParseVerbatim command children doc, hasBriefTag)"
| "ParseTopLevel className (VerbatimLineComment text) (doc, hasBriefTag) =
     Some (doc\<lparr>Detailed := Detailed doc @ [add_text (new_Paragraph VerbatimText) (trim text)]\<rparr>,
           hasBriefTag)"
| "ParseTopLevel className (ParamCommandComment isVarArg idx name children) (doc, hasBriefTag) =
     (if \<not> isVarArg then
        (let descs = (if length (ParameterDescs doc) \<le> unat idx
                      then resize (ParameterDescs doc) (unat (idx + 1))
                      else ParameterDescs doc)
         in if unat idx < length descs
            then Some (doc\<lparr>ParameterDescs := descs
                         [unat idx := \<lparr>Name = name,
                                        Description = ParseComments children className\<rparr>]\<rparr>,
                       hasBriefTag)
            else None)
      else Some (doc, hasBriefTag))"
| "ParseTopLevel className c (doc, hasBriefTag) = Some (doc, hasBriefTag)"

fun ParseTopLevelLoop ::
  "string \<Rightarrow> Comment list \<Rightarrow> ParsedDocumentation \<times> bool \<Rightarrow> (ParsedDocumentation \<times> bool) option" where
  "ParseTopLevelLoop className [] st = Some st"
| "ParseTopLevelLoop className (c # cs) st =
     (case ParseTopLevel className c st of
        None \<Rightarrow> None
      | Some st' \<Rightarrow> ParseTopLevelLoop className cs st')"

definition ParsedDocumentation_ctor ::
  "string \<Rightarrow> Comment list option \<Rightarrow> bool \<Rightarrow> ParsedDocumentation option" where
  "ParsedDocumentation_ctor className doc hasBriefTag =
     (case doc of
        None \<Rightarrow> Some new_ParsedDocumentation
      | Some children \<Rightarrow>
          map_option fst (ParseTopLevelLoop className children (new_ParsedDocumentation, hasBriefTag)))"

section \<open>Renderer\<close>

text \<open>
  The writers return the text they append to the stream, together with their result.
\<close>

text \<open>
  \<open>WriteSingleLine\<close>.  \<open>last_span\<close> is the \<open>while\<close> loop that moves \<open>end\<close> back over
  spans that are blank after right-trimming, stopping at the first span;
  \<open>WriteSpans\<close> is the \<open>for\<close> loop over the spans before \<open>end\<close>, carrying \<open>written\<close>.
\<close>

fun last_span :: "string list \<Rightarrow> nat \<Rightarrow> nat" where
  "last_span d 0 = 0"
| "last_span d (Suc e) = (if rtrim (d ! Suc e) = [] then last_span d e else Suc e)"

fun WriteSpans :: "nat \<Rightarrow> string \<Rightarrow> string list \<Rightarrow> bool \<Rightarrow> string \<times> bool" where
  "WriteSpans indent prefix [] written = ([], written)"
| "WriteSpans indent prefix (str # rest) written =
     (if length str > 0 then
        (let out = (if \<not> written
                    then indent_str indent @ EscapeXML prefix @ EscapeXML (ltrim str)
                    else EscapeXML str);
             (out', written') = WriteSpans indent prefix rest True
         in (out @ out', written'))
      else WriteSpans indent prefix rest written)"

definition WriteSingleLine :: "Paragraph \<Rightarrow> nat \<Rightarrow> string \<Rightarrow> string \<times> bool" where
  "WriteSingleLine para indent prefix =
     (if Data para = [] then ([], False)
      else
        (let end = last_span (Data para) (length (Data para) - 1);
             last = rtrim (Data para ! end);
             (out, written) = WriteSpans indent prefix (take end (Data para)) False
         in if last \<noteq> [] then
              (if \<not> written
               then (out @ indent_str indent @ EscapeXML prefix @ EscapeXML (ltrim last), True)
               else (out @ EscapeXML last, True))
            else (out, written)))"

text \<open>
  \<open>WriteVerbatim\<close>.  \<open>SIZE_MAX\<close> is \<open>std::numeric_limits<std::size_t>::max()\<close> for a
  64-bit \<open>size_t\<close>.  \<open>strip_amount\<close> is the first loop, \<open>WriteLines\<close> the second.
\<close>

definition SIZE_MAX :: nat where
  "SIZE_MAX = 2 ^ 64 - 1"

definition strip_amount :: "string list \<Rightarrow> nat" where
  "strip_amount parts =
     foldl (\<lambda>stripAmount part.
              case find_first_not_of whitespace part 0 of
                Some wsLen \<Rightarrow> min stripAmount wsLen
              | None \<Rightarrow> stripAmount)
       SIZE_MAX parts"

fun WriteLines :: "nat \<Rightarrow> nat \<Rightarrow> string list \<Rightarrow> string" where
  "WriteLines indent stripAmount [] = []"
| "WriteLines indent stripAmount (part # rest) =
     indent_str indent
     @ (if length part > stripAmount
        then EscapeXML (rtrim (substr_from part stripAmount)) @ [CHR 0x0A]
        else [CHR 0x0A])
     @ WriteLines indent stripAmount rest"

definition WriteVerbatim :: "Paragraph \<Rightarrow> nat \<Rightarrow> string \<times> bool" where
  "WriteVerbatim para indent =
     (WriteLines indent (strip_amount (Data para)) (Data para), Data para \<noteq> [])"

definition IsDifferentLanguage :: "ParagraphType \<Rightarrow> ParagraphType \<Rightarrow> bool" where
  "IsDifferentLanguage current next =
     ((current = GDScript \<and> next = CSharpCode) \<or> (current = CSharpCode \<and> next = GDScript))"

text \<open>The prefix of a list item: no-break space, bullet, two no-break spaces, in UTF-8.\<close>

definition bullet :: string where
  "bullet = [CHR 0xC2, CHR 0xA0, CHR 0xE2, CHR 0x80, CHR 0xA2, CHR 0xC2, CHR 0xA0, CHR 0xC2, CHR 0xA0]"

text \<open>One code block with a language tag, and the two-language block.\<close>

definition codeblock :: "Paragraph \<Rightarrow> nat \<Rightarrow> string" where
  "codeblock p indent =
     indent_str indent @ ''[codeblock lang='' @ type_name (Type p) @ '']'' @ [CHR 0x0A]
     @ fst (WriteVerbatim p indent)
     @ indent_str indent @ ''[/codeblock]''"

definition codeblocks :: "Paragraph \<Rightarrow> Paragraph \<Rightarrow> nat \<Rightarrow> string" where
  "codeblocks p next indent =
     indent_str indent @ ''[codeblocks]'' @ [CHR 0x0A]
     @ indent_str indent @ ''['' @ type_name (Type p) @ '']'' @ [CHR 0x0A]
     @ fst (WriteVerbatim p indent)
     @ indent_str indent @ ''[/'' @ type_name (Type p) @ '']'' @ [CHR 0x0A]
     @ indent_str indent @ ''['' @ type_name (Type next) @ '']'' @ [CHR 0x0A]
     @ fst (WriteVerbatim next indent)
     @ indent_str indent @ ''[/'' @ type_name (Type next) @ '']'' @ [CHR 0x0A]
     @ indent_str indent @ ''[/codeblocks]''"

lemma dropWhile_tail_shorter:
  "dropWhile P xs = y # ys \<Longrightarrow> length ys < Suc (length xs)"
proof -
  assume "dropWhile P xs = y # ys"
  then have "Suc (length ys) = length (dropWhile P xs)" by simp
  also have "\<dots> \<le> length xs" by (rule length_dropWhile_le)
  finally show ?thesis by simp
qed

text \<open>
  \<open>Write\<close>: the loop over the paragraphs from the iterator position on, with \<open>newPara\<close>
  as loop state.  In the code case \<open>next\<close> is found by skipping empty paragraphs, and
  after a merged block the iteration goes on behind \<open>next\<close>.
\<close>

function WriteLoop :: "nat \<Rightarrow> string \<Rightarrow> Paragraph list \<Rightarrow> bool \<Rightarrow> string \<times> bool" where
  "WriteLoop indent prefix [] newPara = ([], newPara)"
| "WriteLoop indent prefix (p # rest) newPara =
     (if \<not> Paragraph_empty p then
        (let sep = (if newPara then [CHR 0x0A] else []) in
         case Type p of
           List \<Rightarrow>
             (let (out, w) = WriteSingleLine p indent bullet;
                  (out', r) = WriteLoop indent prefix rest True
              in (sep @ out @ out', r))
         | VerbatimText \<Rightarrow>
             (let (out', r) = WriteLoop indent prefix rest True
              in (sep @ codeblock p indent @ out', r))
         | Normal \<Rightarrow>
             (let (out, w) = WriteSingleLine p indent (if newPara then [] else prefix);
                  (out', r) = WriteLoop indent prefix rest (w \<or> newPara)
              in (sep @ out @ out', r))
         | _ \<Rightarrow>
             (case dropWhile Paragraph_empty rest of
                next # rest' \<Rightarrow>
                  (if IsDifferentLanguage (Type p) (Type next) then
                     (let (out', r) = WriteLoop indent prefix rest' True
                      in (sep @ codeblocks p next indent @ out', r))
                   else
                     (let (out', r) = WriteLoop indent prefix rest True
                      in (sep @ codeblock p indent @ out', r)))
              | [] \<Rightarrow>
                  (let (out', r) = WriteLoop indent prefix rest True
                   in (sep @ codeblock p indent @ out', r))))
      else WriteLoop indent prefix rest newPara)"
  by pat_completeness auto
termination
  by (relation "measure (\<lambda>(indent, prefix, paras, newPara). length paras)")
     (auto dest: dropWhile_tail_shorter)

declare WriteLoop.simps [simp del]

definition Write :: "Paragraph list \<Rightarrow> nat \<Rightarrow> string \<Rightarrow> string \<times> bool" where
  "Write paras indent prefix = WriteLoop indent prefix paras False"

section \<open>Definitions that follow the wording of the specification\<close>

text \<open>
  The number of leading whitespace characters of a line, and the common indentation of the
  lines that contain a character other than whitespace (bounded by \<open>SIZE_MAX\<close>, the value
  the search starts from).
\<close>

definition leading_ws :: "string \<Rightarrow> nat" where
  "leading_ws l = length (takeWhile is_ws l)"

definition common_indent :: "string list \<Rightarrow> nat" where
  "common_indent lines = min_list (SIZE_MAX # map leading_ws (filter (\<lambda>l. ltrim l \<noteq> []) lines))"

text \<open>
  Common-indentation stripping read literally: the minimum is taken over all lines, and every
  line is written without that many leading characters.
\<close>

definition WriteVerbatim_claimed :: "Paragraph \<Rightarrow> nat \<Rightarrow> string" where
  "WriteVerbatim_claimed para indent =
     concat (map (\<lambda>l. indent_str indent
                        @ EscapeXML (drop (min_list (map leading_ws (Data para))) l)
                        @ [CHR 0x0A])
               (Data para))"

text \<open>
  Common-indentation stripping as amended: the minimum is taken over the lines that are not
  blank, such a line also loses its trailing whitespace, and a blank line is written as an
  empty line.
\<close>

definition WriteVerbatim_amended :: "Paragraph \<Rightarrow> nat \<Rightarrow> string" where
  "WriteVerbatim_amended para indent =
     concat (map (\<lambda>l. indent_str indent
                        @ (if ltrim l = [] then []
                           else EscapeXML (rtrim (drop (common_indent (Data para)) l)))
                        @ [CHR 0x0A])
               (Data para))"

text \<open>
  The \<open>tutorial\<close> command as the specification words it: the first non-blank span,
  trimmed, is split at its first run of whitespace into the URL and the remaining fragment.
  \<open>Tutorial_claimed\<close> is the entry whose title is that fragment alone.
\<close>

definition tutorial_url :: "string \<Rightarrow> string" where
  "tutorial_url span = takeWhile (\<lambda>c. \<not> is_ws c) (trim span)"

definition tutorial_fragment :: "string \<Rightarrow> string" where
  "tutorial_fragment span = ltrim (dropWhile (\<lambda>c. \<not> is_ws c) (trim span))"

definition tutorial_title_spans :: "string \<Rightarrow> string list" where
  "tutorial_title_spans span =
     (if tutorial_fragment span = [] then [] else [tutorial_fragment span])"

definition Tutorial_claimed :: "string \<Rightarrow> Tutorial" where
  "Tutorial_claimed span =
     \<lparr>URL = tutorial_url span,
      Title = \<lparr>Data = tutorial_title_spans span, Type = Normal\<rparr>\<rparr>"

text \<open>Sample comment trees: two bare paragraphs, and an explicit \<open>brief\<close> command.\<close>

definition two_paragraphs :: "Comment list" where
  "two_paragraphs =
     [ParagraphComment [TextComment ''Summary.''], ParagraphComment [TextComment ''Body.'']]"

definition brief_command :: Comment where
  "brief_command = BlockCommandComment ''brief'' [] [ParagraphComment [TextComment ''New summary.'']]"

text \<open>
  The kinds of reference and the inline commands that the expander tells apart by name
  (the names compared against in \<open>ParseReference\<close> and in the inline-command case).
\<close>

definition ref_kinds :: "string list" where
  "ref_kinds = [''operator'', ''annotation'', ''constant'', ''enum'', ''member'', ''method'',
     ''constructor'', ''signal'', ''theme_item'']"

definition inline_commands :: "string list" where
  "inline_commands = [''a'', ''b'', ''c'', ''e'', ''em'', ''n'', ''p'', ''ref'']"

section \<open>Properties\<close>

lemma first_index_takeWhile:
  "first_index P xs i =
     (if \<exists>x \<in> set xs. P x then Some (i + length (takeWhile (\<lambda>c. \<not> P c) xs)) else None)"
  by (induction xs arbitrary: i) auto

lemma entity_special:
  "c \<in> set g_special \<Longrightarrow> entity c = escape_char_spec c"
  by (auto simp: g_special_def entity_def escape_char_spec_def)

lemma escape_char_spec_plain:
  "c \<notin> set g_special \<Longrightarrow> escape_char_spec c = [c]"
  by (auto simp: g_special_def escape_char_spec_def)

lemma concat_escape_plain:
  "\<forall>c \<in> set xs. c \<notin> set g_special \<Longrightarrow> concat (map escape_char_spec xs) = xs"
  by (induction xs) (simp_all add: escape_char_spec_plain)

lemma EscapeXML_loop_spec:
  "start \<le> length s \<Longrightarrow> EscapeXML_loop s start = concat (map escape_char_spec (drop start s))"
proof (induction s start rule: EscapeXML_loop.induct)
  case (1 s start)
  let ?P = "\<lambda>c. c \<in> set g_special"
  let ?r = "drop start s"
  let ?pre = "takeWhile (\<lambda>c. \<not> ?P c) ?r"
  show ?case
  proof (cases "\<exists>x \<in> set ?r. ?P x")
    case False
    then have none: "find_first_of g_special s start = None"
      by (simp add: find_first_of_def first_index_takeWhile)
    from False have "concat (map escape_char_spec ?r) = ?r"
      by (intro concat_escape_plain) blast
    with none show ?thesis
      by (subst EscapeXML_loop.simps) (simp add: substr_from_def)
  next
    case True
    define k where "k = length ?pre"
    define pos where "pos = start + k"
    from True "1.prems" have found: "find_first_of g_special s start = Some pos"
      by (simp add: find_first_of_def first_index_takeWhile pos_def k_def min_def)
    have klt: "k < length ?r"
    proof (rule ccontr)
      assume "\<not> k < length ?r"
      then have "take k ?r = ?r" by simp
      then have "?pre = ?r" unfolding k_def by (metis takeWhile_eq_take)
      with True show False by simp
    qed
    then have poslt: "pos < length s" by (simp add: pos_def)
    have nth: "?r ! k = s ! pos"
      using "1.prems" by (simp add: pos_def)
    have sp: "?P (s ! pos)"
      using nth_length_takeWhile [of "\<lambda>c. \<not> ?P c" ?r] klt nth
      by (simp add: k_def)
    have pre: "take k ?r = ?pre"
      unfolding k_def by (metis takeWhile_eq_take)
    have split: "?r = ?pre @ (s ! pos) # drop (pos + 1) s"
    proof -
      have "?r = take k ?r @ ?r ! k # drop (Suc k) ?r"
        using klt by (rule id_take_nth_drop)
      also have "drop (Suc k) ?r = drop (pos + 1) s"
        by (simp add: pos_def add.commute)
      finally show ?thesis using pre nth by simp
    qed
    have plain: "concat (map escape_char_spec ?pre) = ?pre"
      by (intro concat_escape_plain) (auto dest: set_takeWhileD)
    have IH: "EscapeXML_loop s (pos + 1) = concat (map escape_char_spec (drop (pos + 1) s))"
      using "1.IH" [OF found] poslt by simp
    have "EscapeXML_loop s start = ?pre @ entity (s ! pos) @ EscapeXML_loop s (pos + 1)"
      using found pre by (subst EscapeXML_loop.simps) (simp add: substr_def pos_def)
    also have "\<dots> = concat (map escape_char_spec (?pre @ (s ! pos) # drop (pos + 1) s))"
      using plain IH entity_special [OF sp] by simp
    finally show ?thesis by (simp only: split [symmetric])
  qed
qed

text \<open>
  C4.  For every input string the escaping function writes the string in which each double
  quote, apostrophe, less-than, greater-than and ampersand is replaced by its named entity
  and every other character is passed through unchanged, in order; on the sample text
  (quoted, so that all five characters occur) it writes the five-entity substitution.
\<close>

theorem EscapeXML_refines_spec:
  "EscapeXML s = EscapeXML_spec s
   \<and> EscapeXML ([CHR 0x22] @ ''<a>&'' @ [CHR 0x27] @ ''b'' @ [CHR 0x27, CHR 0x22])
       = ''&quot;&lt;a&gt;&amp;&apos;b&apos;&quot;''
   \<and> EscapeXML (''<a>&'' @ [CHR 0x27] @ ''b'' @ [CHR 0x27]) = ''&lt;a&gt;&amp;&apos;b&apos;''"
proof -
  have gen: "EscapeXML t = EscapeXML_spec t" for t
    by (simp add: EscapeXML_def EscapeXML_loop_spec EscapeXML_spec_def)
  show ?thesis
    unfolding gen by (simp add: EscapeXML_spec_def escape_char_spec_def)
qed

text \<open>
  C7.  Appending a paragraph of a different kind leaves the target paragraph exactly as it
  was, kind and spans; the operation is total, so no error is raised and the appended spans
  are dropped.
\<close>

theorem add_paragraph_kind_mismatch:
  "Type p \<noteq> Type q \<Longrightarrow> add_paragraph p q = p"
  by (simp add: add_paragraph_def)

theorem add_paragraph_kind_mismatch_witness:
  "Type \<lparr>Data = [''a''], Type = Normal\<rparr> \<noteq> Type \<lparr>Data = [''b''], Type = List\<rparr>
   \<and> add_paragraph \<lparr>Data = [''a''], Type = Normal\<rparr> \<lparr>Data = [''b''], Type = List\<rparr>
       = \<lparr>Data = [''a''], Type = Normal\<rparr>"
  using add_paragraph_kind_mismatch
    [of "\<lparr>Data = [''a''], Type = Normal\<rparr>" "\<lparr>Data = [''b''], Type = List\<rparr>"]
  by simp

subsection \<open>Reference resolution\<close>

lemma find_char_None: "ch \<notin> set s \<Longrightarrow> find_char ch s 0 = None"
  by (simp add: find_char_def first_index_takeWhile)

lemma find_char_Some:
  "ch \<in> set s \<Longrightarrow> find_char ch s 0 = Some (length (takeWhile (\<lambda>c. c \<noteq> ch) s))"
  by (auto simp add: find_char_def first_index_takeWhile)

lemma substr_kind: "substr s 0 (length (takeWhile P s)) = takeWhile P s"
  by (simp add: substr_def takeWhile_eq_take [symmetric])

text \<open>
  C2.  The expander hands the argument of a \<open>ref\<close> command to the reference parser, which
  resolves \<open>member:Color.r\<close> (owner Color) to \<open>[member Color.r]\<close>, \<open>method:jump\<close> (owner
  Player) to \<open>[method Player.jump]\<close> and \<open>operator:Vector2.+\<close> (owner Vector2) to
  \<open>[operator Vector2.operator +]\<close>; for every owner, a token without a colon, and a token
  whose kind (the text before its first colon) is not a recognised one, is returned between
  brackets unchanged.
\<close>

theorem ParseReference_resolution:
  "ParseInlineCommand owner ''ref'' [tok] p = add_text p (ParseReference tok owner)
   \<and> ParseReference ''member:Color.r'' ''Color'' = ''[member Color.r]''
   \<and> ParseReference ''method:jump'' ''Player'' = ''[method Player.jump]''
   \<and> ParseReference ''operator:Vector2.+'' ''Vector2'' = ''[operator Vector2.operator +]''
   \<and> (CHR '':'' \<notin> set tok \<longrightarrow> ParseReference tok owner = ''['' @ tok @ '']'')
   \<and> (takeWhile (\<lambda>c. c \<noteq> CHR '':'') tok \<notin> set ref_kinds
        \<longrightarrow> ParseReference tok owner = ''['' @ tok @ '']'')"
proof (intro conjI impI)
  show "ParseInlineCommand owner ''ref'' [tok] p = add_text p (ParseReference tok owner)"
    by (simp add: ParseInlineCommand_def)
  show "ParseReference ''member:Color.r'' ''Color'' = ''[member Color.r]''"
    by (simp add: ParseReference_def find_char_def substr_def substr_from_def)
  show "ParseReference ''method:jump'' ''Player'' = ''[method Player.jump]''"
    by (simp add: ParseReference_def find_char_def substr_def substr_from_def)
  show "ParseReference ''operator:Vector2.+'' ''Vector2'' = ''[operator Vector2.operator +]''"
    by (simp add: ParseReference_def find_char_def substr_def substr_from_def)
next
  assume "CHR '':'' \<notin> set tok"
  then show "ParseReference tok owner = ''['' @ tok @ '']''"
    by (simp add: ParseReference_def find_char_None)
next
  assume "takeWhile (\<lambda>c. c \<noteq> CHR '':'') tok \<notin> set ref_kinds"
  then show "ParseReference tok owner = ''['' @ tok @ '']''"
    by (cases "CHR '':'' \<in> set tok")
       (simp_all add: ParseReference_def find_char_None find_char_Some substr_kind
          ref_kinds_def Let_def)
qed

theorem ParseReference_resolution_witness:
  "CHR '':'' \<notin> set ''Color'' \<and> ParseReference ''Color'' ''Player'' = ''[Color]''
   \<and> takeWhile (\<lambda>c. c \<noteq> CHR '':'') ''class:Node'' \<notin> set ref_kinds
   \<and> ParseReference ''class:Node'' ''Player'' = ''[class:Node]''"
  using ParseReference_resolution [of "''Player''" "''Color''"]
    ParseReference_resolution [of "''Player''" "''class:Node''"]
  by (simp add: ref_kinds_def)

subsection \<open>Inline commands with several arguments\<close>

lemma foldl_add_text:
  "foldl (\<lambda>r i. add_text r (f i)) r is = r\<lparr>Data := Data r @ map f is\<rparr>"
  by (induction "is" arbitrary: r) (simp_all add: add_text_def)

lemma map_nth_tl: "map (\<lambda>i. g (xs ! i)) [1 ..< length xs] = map g (tl xs)"
  by (rule nth_equalityI) (simp_all add: nth_tl)

lemma ParseInlineCommand_fold:
  "ParseInlineCommand cn cmd args r =
     (let r1 = ParseInlineCommand cn cmd (take 1 args) r
      in r1\<lparr>Data := Data r1 @ map (\<lambda>a. '' '' @ a) (tl args)\<rparr>)"
proof (cases args)
  case Nil
  then show ?thesis by (simp add: ParseInlineCommand_def Let_def)
next
  case (Cons a rest)
  have "foldl (\<lambda>r i. add_text r ('' '' @ args ! i)) q [1 ..< length args]
          = q\<lparr>Data := Data q @ map (\<lambda>a. '' '' @ a) (tl args)\<rparr>" for q
    by (simp only: foldl_add_text map_nth_tl)
  with Cons show ?thesis
    by (cases rest) (simp_all add: ParseInlineCommand_def Let_def)
qed

text \<open>
  C10.  For every inline command, whatever its name (the recognised one-argument commands
  included), with more than one argument: the paragraph receives what the command contributes
  for its first argument alone, followed by one span per further argument, each a single
  space followed by the argument text; the kind of the paragraph is not changed.  A command
  that is none of the recognised ones and whose first argument is empty contributes nothing
  for that argument, only the spans of the further arguments.
\<close>

theorem inline_extra_arguments:
  "(1 < length args \<longrightarrow>
      Data (ParseInlineCommand cn cmd args r)
        = Data (ParseInlineCommand cn cmd [hd args] r) @ map (\<lambda>a. '' '' @ a) (tl args)
      \<and> Type (ParseInlineCommand cn cmd args r) = Type (ParseInlineCommand cn cmd [hd args] r))
   \<and> (cmd \<notin> set inline_commands \<longrightarrow>
        ParseInlineCommand cn cmd ([] # rest) r
          = r\<lparr>Data := Data r @ map (\<lambda>a. '' '' @ a) rest\<rparr>)"
proof (intro conjI impI)
  assume "1 < length args"
  then obtain a b rest where args: "args = a # b # rest"
    by (cases args; cases "tl args") auto
  show "Data (ParseInlineCommand cn cmd args r)
        = Data (ParseInlineCommand cn cmd [hd args] r) @ map (\<lambda>a. '' '' @ a) (tl args)"
    by (subst ParseInlineCommand_fold) (simp add: args Let_def)
  show "Type (ParseInlineCommand cn cmd args r) = Type (ParseInlineCommand cn cmd [hd args] r)"
    by (subst ParseInlineCommand_fold) (simp add: args Let_def)
next
  assume "cmd \<notin> set inline_commands"
  then have "ParseInlineCommand cn cmd [[]] r = r"
    by (simp add: ParseInlineCommand_def inline_commands_def)
  then show "ParseInlineCommand cn cmd ([] # rest) r
      = r\<lparr>Data := Data r @ map (\<lambda>a. '' '' @ a) rest\<rparr>"
    by (subst ParseInlineCommand_fold) (simp add: Let_def)
qed

theorem inline_extra_arguments_witness:
  "1 < length [''x'', ''y'', ''z'']
   \<and> Data (ParseInlineCommand ''Player'' ''b'' [''x'', ''y'', ''z''] (new_Paragraph Normal))
       = [''[b]x[/b]'', '' y'', '' z'']
   \<and> ''emoji'' \<notin> set inline_commands
   \<and> ParseInlineCommand ''Player'' ''emoji'' [[], ''y''] (new_Paragraph Normal)
       = \<lparr>Data = ['' y''], Type = Normal\<rparr>"
  using inline_extra_arguments
      [of "[''x'', ''y'', ''z'']" "''Player''" "''b''" "new_Paragraph Normal" "[''y'']"]
    inline_extra_arguments
      [of "[''x'', ''y'', ''z'']" "''Player''" "''emoji''" "new_Paragraph Normal" "[''y'']"]
  by (simp add: inline_commands_def new_Paragraph_def ParseInlineCommand_def add_text_def)

subsection \<open>Common-indentation stripping\<close>

lemma ltrim_Nil_iff: "ltrim l = [] \<longleftrightarrow> (\<forall>c \<in> set l. is_ws c)"
  by (simp add: ltrim_def dropWhile_eq_Nil_conv)

lemma find_first_not_of_ws:
  "find_first_not_of whitespace l 0 = (if ltrim l = [] then None else Some (leading_ws l))"
  by (auto simp: find_first_not_of_def first_index_takeWhile ltrim_Nil_iff is_ws_def leading_ws_def
      intro!: arg_cong [where f = length] takeWhile_cong)

lemma min_list_Cons2: "min_list (x # y # ys) = min x (min_list (y # ys))"
  by simp

lemma min_list_min: "min_list (min a b # xs) = min_list (a # b # (xs :: nat list))"
proof (cases xs)
  case Nil
  then show ?thesis by simp
next
  case (Cons y ys)
  show ?thesis
    unfolding Cons by (simp only: min_list_Cons2 min.assoc)
qed

lemma strip_loop_min_list:
  "foldl (\<lambda>stripAmount part.
            case find_first_not_of whitespace part 0 of
              Some wsLen \<Rightarrow> min stripAmount wsLen
            | None \<Rightarrow> stripAmount) acc parts
   = min_list (acc # map leading_ws (filter (\<lambda>l. ltrim l \<noteq> []) parts))"
    (is "foldl ?f acc parts = _")
proof (induction parts arbitrary: acc)
  case Nil
  show ?case by simp
next
  case (Cons l ls)
  let ?rest = "map leading_ws (filter (\<lambda>l. ltrim l \<noteq> []) ls)"
  show ?case
  proof (cases "ltrim l = []")
    case True
    then have "foldl ?f acc (l # ls) = foldl ?f acc ls"
      by (simp add: find_first_not_of_ws)
    also have "\<dots> = min_list (acc # ?rest)" by (rule Cons.IH)
    finally show ?thesis using True by (simp del: min_list.simps)
  next
    case False
    then have "foldl ?f acc (l # ls) = foldl ?f (min acc (leading_ws l)) ls"
      by (simp add: find_first_not_of_ws)
    also have "\<dots> = min_list (min acc (leading_ws l) # ?rest)" by (rule Cons.IH)
    also have "\<dots> = min_list (acc # leading_ws l # ?rest)" by (rule min_list_min)
    finally show ?thesis using False by (simp del: min_list.simps)
  qed
qed

lemma strip_amount_common_indent: "strip_amount parts = common_indent parts"
  by (simp only: strip_amount_def common_indent_def strip_loop_min_list)

lemma common_indent_le:
  assumes "l \<in> set parts" and "ltrim l \<noteq> []"
  shows "common_indent parts \<le> leading_ws l"
proof -
  let ?xs = "SIZE_MAX # map leading_ws (filter (\<lambda>l. ltrim l \<noteq> []) parts)"
  have "leading_ws l \<in> set ?xs" using assms by simp
  moreover have "min_list ?xs = Min (set ?xs)" by (rule min_list_Min) simp
  ultimately show ?thesis unfolding common_indent_def by (simp only: Min_le List.finite_set)
qed

lemma leading_ws_less: "ltrim l \<noteq> [] \<Longrightarrow> leading_ws l < length l"
proof -
  assume a: "ltrim l \<noteq> []"
  have "length l = length (takeWhile is_ws l) + length (dropWhile is_ws l)"
    by (metis length_append takeWhile_dropWhile_id)
  with a show ?thesis by (simp add: leading_ws_def ltrim_def)
qed

lemma rtrim_blank: "ltrim l = [] \<Longrightarrow> rtrim (drop n l) = []"
proof -
  assume "ltrim l = []"
  then have "\<forall>c \<in> set (rev (drop n l)). is_ws c"
    by (auto simp: ltrim_Nil_iff dest: in_set_dropD)
  then show ?thesis by (simp add: rtrim_def)
qed

lemma EscapeXML_Nil: "EscapeXML [] = []"
  by (simp add: EscapeXML_def EscapeXML_loop_spec)

lemma WriteLines_lines:
  assumes "\<forall>l \<in> set ls. ltrim l \<noteq> [] \<longrightarrow> n \<le> leading_ws l"
  shows "WriteLines indent n ls
         = concat (map (\<lambda>l. indent_str indent
                        @ (if ltrim l = [] then [] else EscapeXML (rtrim (drop n l)))
                        @ [CHR 0x0A]) ls)"
  using assms
proof (induction ls)
  case Nil
  show ?case by simp
next
  case (Cons l ls)
  then have IH: "WriteLines indent n ls
         = concat (map (\<lambda>l. indent_str indent
                        @ (if ltrim l = [] then [] else EscapeXML (rtrim (drop n l)))
                        @ [CHR 0x0A]) ls)" by simp
  show ?case
  proof (cases "ltrim l = []")
    case True
    then show ?thesis by (simp add: IH substr_from_def rtrim_blank EscapeXML_Nil)
  next
    case False
    with Cons.prems have "n \<le> leading_ws l" by simp
    with leading_ws_less [OF False] have "n < length l" by simp
    with False show ?thesis by (simp add: IH substr_from_def)
  qed
qed

lemma WriteVerbatim_lines: "fst (WriteVerbatim p i) = WriteVerbatim_amended p i"
  unfolding WriteVerbatim_def WriteVerbatim_amended_def fst_conv strip_amount_common_indent
  by (rule WriteLines_lines) (simp add: common_indent_le)

text \<open>
  C5 (amended).  For a verbatim or code paragraph the renderer takes the minimum number of
  leading whitespace characters over the lines that contain a character other than
  whitespace (never more than the largest \<open>size_t\<close>); each such line is written, after
  the indentation of the block, without that many leading characters, all of them
  whitespace, and without its trailing whitespace, escaped; every blank line is written as
  an empty line.  The lines \<open>"    foo"\<close> and \<open>"      bar"\<close> are written as
  \<open>"foo"\<close> and \<open>"  bar"\<close>.
\<close>

theorem WriteVerbatim_strips:
  "fst (WriteVerbatim para indent) = WriteVerbatim_amended para indent
   \<and> list_all (\<lambda>l. ltrim l = [] \<or> common_indent (Data para) \<le> leading_ws l) (Data para)
   \<and> fst (WriteVerbatim \<lparr>Data = [''    foo'', ''      bar''], Type = VerbatimText\<rparr> 0)
       = ''foo'' @ [CHR 0x0A] @ ''  bar'' @ [CHR 0x0A]"
proof -
  note gen = WriteVerbatim_lines
  have "fst (WriteVerbatim \<lparr>Data = [''    foo'', ''      bar''], Type = VerbatimText\<rparr> 0)
       = ''foo'' @ [CHR 0x0A] @ ''  bar'' @ [CHR 0x0A]"
    unfolding gen
    by (simp add: WriteVerbatim_amended_def common_indent_def leading_ws_def is_ws_def
        whitespace_def ltrim_def rtrim_def SIZE_MAX_def indent_str_def
        EscapeXML_def EscapeXML_loop_spec escape_char_spec_def)
  moreover have "list_all (\<lambda>l. ltrim l = [] \<or> common_indent (Data para) \<le> leading_ws l) (Data para)"
    unfolding list_all_iff using common_indent_le by blast
  ultimately show ?thesis using gen by simp
qed

text \<open>
  C5 as stated fails: with a blank line between two indented lines, one of which ends in
  spaces, the literal reading strips nothing and keeps the trailing spaces, while the
  renderer writes \<open>foo\<close>, an empty line and \<open>bar\<close>.
\<close>

theorem WriteVerbatim_claimed_counterexample:
  "fst (WriteVerbatim \<lparr>Data = [''    foo  '', [], ''    bar''], Type = VerbatimText\<rparr> 0)
     \<noteq> WriteVerbatim_claimed \<lparr>Data = [''    foo  '', [], ''    bar''], Type = VerbatimText\<rparr> 0"
proof -
  note gen = WriteVerbatim_lines
  show ?thesis
    unfolding gen
    by (simp add: WriteVerbatim_amended_def WriteVerbatim_claimed_def common_indent_def
        leading_ws_def is_ws_def
        whitespace_def ltrim_def rtrim_def SIZE_MAX_def indent_str_def
        EscapeXML_def EscapeXML_loop_spec escape_char_spec_def)
qed

subsection \<open>Code paragraphs\<close>

lemma WriteLoop_code:
  assumes "\<not> Paragraph_empty p" and "Type p = GDScript \<or> Type p = CSharpCode"
  shows "WriteLoop indent prefix (p # rest) newPara =
     (case dropWhile Paragraph_empty rest of
        q # rest' \<Rightarrow>
          if IsDifferentLanguage (Type p) (Type q)
          then ((if newPara then [CHR 0x0A] else []) @ codeblocks p q indent
                  @ fst (WriteLoop indent prefix rest' True),
                snd (WriteLoop indent prefix rest' True))
          else ((if newPara then [CHR 0x0A] else []) @ codeblock p indent
                  @ fst (WriteLoop indent prefix rest True),
                snd (WriteLoop indent prefix rest True))
      | [] \<Rightarrow> ((if newPara then [CHR 0x0A] else []) @ codeblock p indent
                  @ fst (WriteLoop indent prefix rest True),
                snd (WriteLoop indent prefix rest True)))"
proof -
  have unfold: "WriteLoop indent prefix (p # rest) newPara =
     (case dropWhile Paragraph_empty rest of
        next # rest' \<Rightarrow>
          (if IsDifferentLanguage (Type p) (Type next) then
             (let (out', r) = WriteLoop indent prefix rest' True
              in ((if newPara then [CHR 0x0A] else []) @ codeblocks p next indent @ out', r))
           else
             (let (out', r) = WriteLoop indent prefix rest True
              in ((if newPara then [CHR 0x0A] else []) @ codeblock p indent @ out', r)))
      | [] \<Rightarrow>
          (let (out', r) = WriteLoop indent prefix rest True
           in ((if newPara then [CHR 0x0A] else []) @ codeblock p indent @ out', r)))"
    using assms by (subst WriteLoop.simps) (auto simp: Let_def)
  show ?thesis
  proof (cases "dropWhile Paragraph_empty rest")
    case Nil
    show ?thesis unfolding unfold Nil by (simp add: case_prod_beta)
  next
    case (Cons q rest')
    show ?thesis unfolding unfold Cons by (simp add: case_prod_beta)
  qed
qed

lemma dropWhile_next:
  "list_all P blanks \<Longrightarrow> \<not> P q \<Longrightarrow> dropWhile P (blanks @ q # rest') = q # rest'"
  by (induction blanks) simp_all

lemma dropWhile_none: "list_all P rest \<Longrightarrow> dropWhile P rest = []"
  by (induction rest) simp_all

text \<open>
  C3.  When the renderer reaches a code paragraph that is not empty: if it is GDScript and
  the next paragraph that is not empty is C#, or it is C# and the next paragraph that is not
  empty is GDScript, the two are written as one \<open>[codeblocks]\<close> block holding both
  language variants one after the other, each between its own language tags, and rendering
  goes on behind the second paragraph; if there is no further non-empty paragraph, or that
  paragraph is code of the same language or of any other kind, the paragraph is written as
  one \<open>[codeblock lang=gdscript]\<close> or \<open>[codeblock lang=csharp]\<close> block and rendering
  goes on with the paragraph behind it.
\<close>

theorem Write_code_paragraph:
  assumes "\<not> Paragraph_empty p"
  shows
  "(Type p = GDScript \<and> rest = blanks @ q # rest' \<and> list_all Paragraph_empty blanks
      \<and> \<not> Paragraph_empty q \<and> Type q = CSharpCode
    \<longrightarrow> WriteLoop indent prefix (p # rest) newPara =
         ((if newPara then [CHR 0x0A] else [])
            @ replicate indent (CHR 0x20) @ ''[codeblocks]'' @ [CHR 0x0A]
            @ replicate indent (CHR 0x20) @ ''[gdscript]'' @ [CHR 0x0A]
            @ fst (WriteVerbatim p indent)
            @ replicate indent (CHR 0x20) @ ''[/gdscript]'' @ [CHR 0x0A]
            @ replicate indent (CHR 0x20) @ ''[csharp]'' @ [CHR 0x0A]
            @ fst (WriteVerbatim q indent)
            @ replicate indent (CHR 0x20) @ ''[/csharp]'' @ [CHR 0x0A]
            @ replicate indent (CHR 0x20) @ ''[/codeblocks]''
            @ fst (WriteLoop indent prefix rest' True),
          snd (WriteLoop indent prefix rest' True)))
   \<and> (Type p = CSharpCode \<and> rest = blanks @ q # rest' \<and> list_all Paragraph_empty blanks
      \<and> \<not> Paragraph_empty q \<and> Type q = GDScript
    \<longrightarrow> WriteLoop indent prefix (p # rest) newPara =
         ((if newPara then [CHR 0x0A] else [])
            @ replicate indent (CHR 0x20) @ ''[codeblocks]'' @ [CHR 0x0A]
            @ replicate indent (CHR 0x20) @ ''[csharp]'' @ [CHR 0x0A]
            @ fst (WriteVerbatim p indent)
            @ replicate indent (CHR 0x20) @ ''[/csharp]'' @ [CHR 0x0A]
            @ replicate indent (CHR 0x20) @ ''[gdscript]'' @ [CHR 0x0A]
            @ fst (WriteVerbatim q indent)
            @ replicate indent (CHR 0x20) @ ''[/gdscript]'' @ [CHR 0x0A]
            @ replicate indent (CHR 0x20) @ ''[/codeblocks]''
            @ fst (WriteLoop indent prefix rest' True),
          snd (WriteLoop indent prefix rest' True)))
   \<and> (Type p = GDScript
      \<and> (list_all Paragraph_empty rest
          \<or> (rest = blanks @ q # rest' \<and> list_all Paragraph_empty blanks
              \<and> \<not> Paragraph_empty q \<and> Type q \<noteq> CSharpCode))
    \<longrightarrow> WriteLoop indent prefix (p # rest) newPara =
         ((if newPara then [CHR 0x0A] else [])
            @ replicate indent (CHR 0x20) @ ''[codeblock lang=gdscript]'' @ [CHR 0x0A]
            @ fst (WriteVerbatim p indent)
            @ replicate indent (CHR 0x20) @ ''[/codeblock]''
            @ fst (WriteLoop indent prefix rest True),
          snd (WriteLoop indent prefix rest True)))
   \<and> (Type p = CSharpCode
      \<and> (list_all Paragraph_empty rest
          \<or> (rest = blanks @ q # rest' \<and> list_all Paragraph_empty blanks
              \<and> \<not> Paragraph_empty q \<and> Type q \<noteq> GDScript))
    \<longrightarrow> WriteLoop indent prefix (p # rest) newPara =
         ((if newPara then [CHR 0x0A] else [])
            @ replicate indent (CHR 0x20) @ ''[codeblock lang=csharp]'' @ [CHR 0x0A]
            @ fst (WriteVerbatim p indent)
            @ replicate indent (CHR 0x20) @ ''[/codeblock]''
            @ fst (WriteLoop indent prefix rest True),
          snd (WriteLoop indent prefix rest True)))"
proof (intro conjI impI)
  assume a: "Type p = GDScript \<and> rest = blanks @ q # rest' \<and> list_all Paragraph_empty blanks
      \<and> \<not> Paragraph_empty q \<and> Type q = CSharpCode"
  then have code: "Type p = GDScript \<or> Type p = CSharpCode" by simp
  from a have nxt: "dropWhile Paragraph_empty rest = q # rest'" by (simp add: dropWhile_next)
  from a have diff: "IsDifferentLanguage (Type p) (Type q)" by (simp add: IsDifferentLanguage_def)
  show "WriteLoop indent prefix (p # rest) newPara =
         ((if newPara then [CHR 0x0A] else [])
            @ replicate indent (CHR 0x20) @ ''[codeblocks]'' @ [CHR 0x0A]
            @ replicate indent (CHR 0x20) @ ''[gdscript]'' @ [CHR 0x0A]
            @ fst (WriteVerbatim p indent)
            @ replicate indent (CHR 0x20) @ ''[/gdscript]'' @ [CHR 0x0A]
            @ replicate indent (CHR 0x20) @ ''[csharp]'' @ [CHR 0x0A]
            @ fst (WriteVerbatim q indent)
            @ replicate indent (CHR 0x20) @ ''[/csharp]'' @ [CHR 0x0A]
            @ replicate indent (CHR 0x20) @ ''[/codeblocks]''
            @ fst (WriteLoop indent prefix rest' True),
          snd (WriteLoop indent prefix rest' True))"
    unfolding WriteLoop_code [OF assms code] nxt list.case
    using a diff by (simp add: codeblocks_def indent_str_def IsDifferentLanguage_def)
next
  assume a: "Type p = CSharpCode \<and> rest = blanks @ q # rest' \<and> list_all Paragraph_empty blanks
      \<and> \<not> Paragraph_empty q \<and> Type q = GDScript"
  then have code: "Type p = GDScript \<or> Type p = CSharpCode" by simp
  from a have nxt: "dropWhile Paragraph_empty rest = q # rest'" by (simp add: dropWhile_next)
  from a have diff: "IsDifferentLanguage (Type p) (Type q)" by (simp add: IsDifferentLanguage_def)
  show "WriteLoop indent prefix (p # rest) newPara =
         ((if newPara then [CHR 0x0A] else [])
            @ replicate indent (CHR 0x20) @ ''[codeblocks]'' @ [CHR 0x0A]
            @ replicate indent (CHR 0x20) @ ''[csharp]'' @ [CHR 0x0A]
            @ fst (WriteVerbatim p indent)
            @ replicate indent (CHR 0x20) @ ''[/csharp]'' @ [CHR 0x0A]
            @ replicate indent (CHR 0x20) @ ''[gdscript]'' @ [CHR 0x0A]
            @ fst (WriteVerbatim q indent)
            @ replicate indent (CHR 0x20) @ ''[/gdscript]'' @ [CHR 0x0A]
            @ replicate indent (CHR 0x20) @ ''[/codeblocks]''
            @ fst (WriteLoop indent prefix rest' True),
          snd (WriteLoop indent prefix rest' True))"
    unfolding WriteLoop_code [OF assms code] nxt list.case
    using a diff by (simp add: codeblocks_def indent_str_def IsDifferentLanguage_def)
next
  assume a: "Type p = GDScript
      \<and> (list_all Paragraph_empty rest
          \<or> (rest = blanks @ q # rest' \<and> list_all Paragraph_empty blanks
              \<and> \<not> Paragraph_empty q \<and> Type q \<noteq> CSharpCode))"
  then have code: "Type p = GDScript \<or> Type p = CSharpCode" by simp
  from a consider (none) "dropWhile Paragraph_empty rest = []"
    | (other) "dropWhile Paragraph_empty rest = q # rest'" "\<not> IsDifferentLanguage (Type p) (Type q)"
    using dropWhile_next [of Paragraph_empty blanks q rest'] dropWhile_none [of Paragraph_empty rest]
    by (auto simp: IsDifferentLanguage_def)
  then show "WriteLoop indent prefix (p # rest) newPara =
         ((if newPara then [CHR 0x0A] else [])
            @ replicate indent (CHR 0x20) @ ''[codeblock lang=gdscript]'' @ [CHR 0x0A]
            @ fst (WriteVerbatim p indent)
            @ replicate indent (CHR 0x20) @ ''[/codeblock]''
            @ fst (WriteLoop indent prefix rest True),
          snd (WriteLoop indent prefix rest True))"
  proof cases
    case none
    show ?thesis unfolding WriteLoop_code [OF assms code] none list.case
      using a by (simp add: codeblock_def indent_str_def)
  next
    case other
    show ?thesis unfolding WriteLoop_code [OF assms code] other(1) list.case if_not_P [OF other(2)]
      using a by (auto simp add: codeblock_def indent_str_def)
  qed
next
  assume a: "Type p = CSharpCode
      \<and> (list_all Paragraph_empty rest
          \<or> (rest = blanks @ q # rest' \<and> list_all Paragraph_empty blanks
              \<and> \<not> Paragraph_empty q \<and> Type q \<noteq> GDScript))"
  then have code: "Type p = GDScript \<or> Type p = CSharpCode" by simp
  from a consider (none) "dropWhile Paragraph_empty rest = []"
    | (other) "dropWhile Paragraph_empty rest = q # rest'" "\<not> IsDifferentLanguage (Type p) (Type q)"
    using dropWhile_next [of Paragraph_empty blanks q rest'] dropWhile_none [of Paragraph_empty rest]
    by (auto simp: IsDifferentLanguage_def)
  then show "WriteLoop indent prefix (p # rest) newPara =
         ((if newPara then [CHR 0x0A] else [])
            @ replicate indent (CHR 0x20) @ ''[codeblock lang=csharp]'' @ [CHR 0x0A]
            @ fst (WriteVerbatim p indent)
            @ replicate indent (CHR 0x20) @ ''[/codeblock]''
            @ fst (WriteLoop indent prefix rest True),
          snd (WriteLoop indent prefix rest True))"
  proof cases
    case none
    show ?thesis unfolding WriteLoop_code [OF assms code] none list.case
      using a by (simp add: codeblock_def indent_str_def)
  next
    case other
    show ?thesis unfolding WriteLoop_code [OF assms code] other(1) list.case if_not_P [OF other(2)]
      using a by (auto simp add: codeblock_def indent_str_def)
  qed
qed


lemmas render_eval =
  Write_def WriteLoop.simps Paragraph_empty_def ltrim_def rtrim_def is_ws_def whitespace_def
  WriteVerbatim_def strip_amount_def find_first_not_of_def SIZE_MAX_def substr_from_def
  EscapeXML_def EscapeXML_loop_spec escape_char_spec_def indent_str_def
  IsDifferentLanguage_def WriteSingleLine_def bullet_def

theorem Write_code_paragraph_witness:
  "\<not> Paragraph_empty \<lparr>Data = [''print(1)''], Type = GDScript\<rparr>
   \<and> \<not> Paragraph_empty \<lparr>Data = [''Print(1);''], Type = CSharpCode\<rparr>
   \<and> \<not> Paragraph_empty \<lparr>Data = [''print(2)''], Type = GDScript\<rparr>
   \<and> \<not> Paragraph_empty \<lparr>Data = [''See above.''], Type = Normal\<rparr>
   \<and> list_all Paragraph_empty [\<lparr>Data = [[]], Type = Normal\<rparr>]
   \<and> list_all Paragraph_empty []
   \<and> Write [\<lparr>Data = [''print(1)''], Type = GDScript\<rparr>, \<lparr>Data = [[]], Type = Normal\<rparr>,
             \<lparr>Data = [''Print(1);''], Type = CSharpCode\<rparr>] 0 []
       = (''[codeblocks]'' @ [CHR 0x0A] @ ''[gdscript]'' @ [CHR 0x0A] @ ''print(1)'' @ [CHR 0x0A]
            @ ''[/gdscript]'' @ [CHR 0x0A] @ ''[csharp]'' @ [CHR 0x0A] @ ''Print(1);'' @ [CHR 0x0A]
            @ ''[/csharp]'' @ [CHR 0x0A] @ ''[/codeblocks]'', True)
   \<and> Write [\<lparr>Data = [''Print(1);''], Type = CSharpCode\<rparr>,
             \<lparr>Data = [''print(1)''], Type = GDScript\<rparr>] 0 []
       = (''[codeblocks]'' @ [CHR 0x0A] @ ''[csharp]'' @ [CHR 0x0A] @ ''Print(1);'' @ [CHR 0x0A]
            @ ''[/csharp]'' @ [CHR 0x0A] @ ''[gdscript]'' @ [CHR 0x0A] @ ''print(1)'' @ [CHR 0x0A]
            @ ''[/gdscript]'' @ [CHR 0x0A] @ ''[/codeblocks]'', True)
   \<and> Write [\<lparr>Data = [''print(1)''], Type = GDScript\<rparr>,
             \<lparr>Data = [''print(2)''], Type = GDScript\<rparr>] 0 []
       = (''[codeblock lang=gdscript]'' @ [CHR 0x0A] @ ''print(1)'' @ [CHR 0x0A]
            @ ''[/codeblock]'' @ [CHR 0x0A]
            @ ''[codeblock lang=gdscript]'' @ [CHR 0x0A] @ ''print(2)'' @ [CHR 0x0A]
            @ ''[/codeblock]'', True)
   \<and> Write [\<lparr>Data = [''print(1)''], Type = GDScript\<rparr>,
             \<lparr>Data = [''See above.''], Type = Normal\<rparr>] 0 []
       = (''[codeblock lang=gdscript]'' @ [CHR 0x0A] @ ''print(1)'' @ [CHR 0x0A]
            @ ''[/codeblock]'' @ [CHR 0x0A] @ ''See above.'', True)
   \<and> Write [\<lparr>Data = [''Print(1);''], Type = CSharpCode\<rparr>] 0 []
       = (''[codeblock lang=csharp]'' @ [CHR 0x0A] @ ''Print(1);'' @ [CHR 0x0A]
            @ ''[/codeblock]'', True)"
  using Write_code_paragraph
      [where p = "\<lparr>Data = [''print(1)''], Type = GDScript\<rparr>"
         and rest = "[\<lparr>Data = [[]], Type = Normal\<rparr>, \<lparr>Data = [''Print(1);''], Type = CSharpCode\<rparr>]"
         and blanks = "[\<lparr>Data = [[]], Type = Normal\<rparr>]"
         and q = "\<lparr>Data = [''Print(1);''], Type = CSharpCode\<rparr>"
         and rest' = "[]" and indent = 0 and prefix = "[]" and newPara = False]
    Write_code_paragraph
      [where p = "\<lparr>Data = [''Print(1);''], Type = CSharpCode\<rparr>"
         and rest = "[\<lparr>Data = [''print(1)''], Type = GDScript\<rparr>]"
         and blanks = "[]"
         and q = "\<lparr>Data = [''print(1)''], Type = GDScript\<rparr>"
         and rest' = "[]" and indent = 0 and prefix = "[]" and newPara = False]
    Write_code_paragraph
      [where p = "\<lparr>Data = [''print(1)''], Type = GDScript\<rparr>"
         and rest = "[\<lparr>Data = [''print(2)''], Type = GDScript\<rparr>]"
         and blanks = "[]"
         and q = "\<lparr>Data = [''print(2)''], Type = GDScript\<rparr>"
         and rest' = "[]" and indent = 0 and prefix = "[]" and newPara = False]
    Write_code_paragraph
      [where p = "\<lparr>Data = [''print(1)''], Type = GDScript\<rparr>"
         and rest = "[\<lparr>Data = [''See above.''], Type = Normal\<rparr>]"
         and blanks = "[]"
         and q = "\<lparr>Data = [''See above.''], Type = Normal\<rparr>"
         and rest' = "[]" and indent = 0 and prefix = "[]" and newPara = False]
    Write_code_paragraph
      [where p = "\<lparr>Data = [''Print(1);''], Type = CSharpCode\<rparr>"
         and rest = "[]" and blanks = "[]"
         and q = "\<lparr>Data = [''print(1)''], Type = GDScript\<rparr>"
         and rest' = "[]" and indent = 0 and prefix = "[]" and newPara = False]
  by (simp add: render_eval codeblock_def codeblocks_def)

subsection \<open>List items\<close>

lemma rtrim_nonblank: "ltrim a \<noteq> [] \<Longrightarrow> rtrim a \<noteq> []"
  by (simp add: ltrim_def rtrim_def)

lemma EscapeXML_bullet: "EscapeXML bullet = bullet"
  by (simp add: EscapeXML_def EscapeXML_loop_spec escape_char_spec_def bullet_def)

lemma WriteSingleLine_single:
  "rtrim a \<noteq> [] \<Longrightarrow>
   WriteSingleLine \<lparr>Data = [a], Type = t\<rparr> indent prefix
     = (indent_str indent @ EscapeXML prefix @ EscapeXML (ltrim (rtrim a)), True)"
  by (simp add: WriteSingleLine_def)

lemma ParseComments_text:
  "ParseComments [ParagraphComment [TextComment a]] cn = \<lparr>Data = [a], Type = Normal\<rparr>"
  by (simp add: ParseComments_def new_Paragraph_def add_paragraph_def add_text_def)

lemma ParseBlock_li:
  "ParseBlock cn ''li'' args children doc hb
     = (doc\<lparr>Detailed := Detailed doc @ [(ParseComments children cn)\<lparr>Type := List\<rparr>]\<rparr>, hb)"
  by (simp add: ParseBlock_def Let_def)

text \<open>
  C8.  A \<open>li\<close> block command appends its paragraph, marked as a list item, to the detailed
  description.  Two consecutive \<open>li\<close> commands with texts \<open>a\<close> and \<open>b\<close> give two list
  paragraphs, and these are rendered as two lines, each starting, after the indentation,
  with the bullet prefix (no-break space, the bullet U+2022, two no-break spaces, in UTF-8),
  and separated by a single line break: no empty line lies between them.
\<close>

theorem list_items:
  assumes "ltrim a \<noteq> []" and "ltrim b \<noteq> []"
  shows "ParseBlock cn ''li'' args children doc hb
           = (doc\<lparr>Detailed := Detailed doc @ [(ParseComments children cn)\<lparr>Type := List\<rparr>]\<rparr>, hb)
     \<and> (\<exists>d. ParsedDocumentation_ctor cn
                (Some [BlockCommandComment ''li'' [] [ParagraphComment [TextComment a]],
                       BlockCommandComment ''li'' [] [ParagraphComment [TextComment b]]]) hb
              = Some d
            \<and> Detailed d = [\<lparr>Data = [a], Type = List\<rparr>, \<lparr>Data = [b], Type = List\<rparr>]
            \<and> fst (Write (Detailed d) indent prefix)
                = replicate indent (CHR 0x20)
                    @ [CHR 0xC2, CHR 0xA0, CHR 0xE2, CHR 0x80, CHR 0xA2, CHR 0xC2, CHR 0xA0,
                       CHR 0xC2, CHR 0xA0]
                    @ EscapeXML (ltrim (rtrim a)) @ [CHR 0x0A]
                    @ replicate indent (CHR 0x20)
                    @ [CHR 0xC2, CHR 0xA0, CHR 0xE2, CHR 0x80, CHR 0xA2, CHR 0xC2, CHR 0xA0,
                       CHR 0xC2, CHR 0xA0]
                    @ EscapeXML (ltrim (rtrim b)))"
proof (intro conjI)
  show "ParseBlock cn ''li'' args children doc hb
           = (doc\<lparr>Detailed := Detailed doc @ [(ParseComments children cn)\<lparr>Type := List\<rparr>]\<rparr>, hb)"
    by (rule ParseBlock_li)
next
  let ?pa = "\<lparr>Data = [a], Type = List\<rparr>" and ?pb = "\<lparr>Data = [b], Type = List\<rparr>"
  let ?d = "new_ParsedDocumentation\<lparr>Detailed := [?pa, ?pb]\<rparr>"
  let ?out = "replicate indent (CHR 0x20)
                    @ [CHR 0xC2, CHR 0xA0, CHR 0xE2, CHR 0x80, CHR 0xA2, CHR 0xC2, CHR 0xA0,
                       CHR 0xC2, CHR 0xA0]
                    @ EscapeXML (ltrim (rtrim a)) @ [CHR 0x0A]
                    @ replicate indent (CHR 0x20)
                    @ [CHR 0xC2, CHR 0xA0, CHR 0xE2, CHR 0x80, CHR 0xA2, CHR 0xC2, CHR 0xA0,
                       CHR 0xC2, CHR 0xA0]
                    @ EscapeXML (ltrim (rtrim b))"
  have ctor: "ParsedDocumentation_ctor cn
                (Some [BlockCommandComment ''li'' [] [ParagraphComment [TextComment a]],
                       BlockCommandComment ''li'' [] [ParagraphComment [TextComment b]]]) hb
              = Some ?d"
    by (simp add: ParsedDocumentation_ctor_def ParseBlock_li ParseComments_text
        new_ParsedDocumentation_def)
  have ne: "\<not> Paragraph_empty ?pa" "\<not> Paragraph_empty ?pb"
    using assms by (simp_all add: Paragraph_empty_def)
  have "fst (Write [?pa, ?pb] indent prefix) = ?out"
    using ne assms
    by (simp add: Write_def WriteLoop.simps WriteSingleLine_single rtrim_nonblank EscapeXML_bullet
        indent_str_def)
       (simp add: bullet_def)
  with ctor show "\<exists>d. ParsedDocumentation_ctor cn
                (Some [BlockCommandComment ''li'' [] [ParagraphComment [TextComment a]],
                       BlockCommandComment ''li'' [] [ParagraphComment [TextComment b]]]) hb
              = Some d
            \<and> Detailed d = [?pa, ?pb]
            \<and> fst (Write (Detailed d) indent prefix) = ?out"
    by simp
qed

theorem list_items_witness:
  "ltrim '' A'' \<noteq> [] \<and> ltrim '' B'' \<noteq> []
   \<and> (\<exists>d. ParsedDocumentation_ctor ''Player''
                (Some [BlockCommandComment ''li'' [] [ParagraphComment [TextComment '' A'']],
                       BlockCommandComment ''li'' [] [ParagraphComment [TextComment '' B'']]]) False
              = Some d
            \<and> Detailed d = [\<lparr>Data = ['' A''], Type = List\<rparr>, \<lparr>Data = ['' B''], Type = List\<rparr>]
            \<and> fst (Write (Detailed d) 2 [])
                = [CHR 0x20, CHR 0x20, CHR 0xC2, CHR 0xA0, CHR 0xE2, CHR 0x80, CHR 0xA2, CHR 0xC2,
                   CHR 0xA0, CHR 0xC2, CHR 0xA0, CHR ''A'', CHR 0x0A,
                   CHR 0x20, CHR 0x20, CHR 0xC2, CHR 0xA0, CHR 0xE2, CHR 0x80, CHR 0xA2, CHR 0xC2,
                   CHR 0xA0, CHR 0xC2, CHR 0xA0, CHR ''B''])"
  using list_items [of "'' A''" "'' B''" "''Player''" "[]" "[]" new_ParsedDocumentation False 2 "[]"]
  by (simp add: ltrim_def rtrim_def is_ws_def whitespace_def numeral_2_eq_2
      EscapeXML_def EscapeXML_loop_spec escape_char_spec_def)

subsection \<open>Parameter descriptions\<close>

lemma unat_succ: "(idx :: 32 word) + 1 \<noteq> 0 \<Longrightarrow> unat (idx + 1) = Suc (unat idx)"
  by (simp add: unatSuc add.commute)

lemma resize_grow:
  "length v \<le> n \<Longrightarrow> resize v n = v @ replicate (n - length v) new_Parameters"
  by (simp add: resize_def)

lemma ParseTopLevel_param:
  assumes "idx + 1 \<noteq> 0"
  shows "ParseTopLevel cn (ParamCommandComment False idx name children) (doc, hb)
          = Some (doc\<lparr>ParameterDescs :=
                     (ParameterDescs doc
                        @ replicate (Suc (unat idx) - length (ParameterDescs doc)) new_Parameters)
                     [unat idx := \<lparr>Name = name, Description = ParseComments children cn\<rparr>]\<rparr>, hb)"
proof (cases "length (ParameterDescs doc) \<le> unat idx")
  case True
  then show ?thesis
    using assms by (simp add: unat_succ resize_grow Let_def)
next
  case False
  then show ?thesis by (simp add: Let_def)
qed

text \<open>
  Documenting index 2 and then index 0: slot 1 is still the default entry.
\<close>

lemma param_index_order:
  "map_option ParameterDescs
        (ParsedDocumentation_ctor ''Player''
           (Some [ParamCommandComment False 2 ''c'' [ParagraphComment [TextComment '' third'']],
                  ParamCommandComment False 0 ''a'' [ParagraphComment [TextComment '' first'']]])
           hb)
       = Some [\<lparr>Name = ''a'', Description = \<lparr>Data = ['' first''], Type = Normal\<rparr>\<rparr>,
               \<lparr>Name = [], Description = \<lparr>Data = [], Type = Normal\<rparr>\<rparr>,
               \<lparr>Name = ''c'', Description = \<lparr>Data = ['' third''], Type = Normal\<rparr>\<rparr>]"
proof -
  have u: "unat (2 :: 32 word) = 2" "unat (0 :: 32 word) = 0" by simp_all
  have h2: "(2 :: 32 word) + 1 \<noteq> 0" and h0: "(0 :: 32 word) + 1 \<noteq> 0" by simp_all
  have r3: "replicate 3 x = [x, x, x]" for x :: Parameters by (simp add: numeral_3_eq_3)
  have up: "[x, y, z][2 := w] = [x, y, w]" for x y z w :: Parameters
    by (simp add: numeral_2_eq_2)
  show ?thesis
    unfolding ParsedDocumentation_ctor_def
    by (simp add: ParseTopLevel_param [OF h2] ParseTopLevel_param [OF h0] u r3 up
        ParseComments_text new_Parameters_def new_Paragraph_def new_ParsedDocumentation_def
        del: ParseTopLevel.simps)
qed

text \<open>A node flagged vararg is skipped.\<close>

lemma param_vararg_skipped:
  "ParseTopLevel cn (ParamCommandComment True idx name children) (doc, hb) = Some (doc, hb)"
  by simp

text \<open>
  A node that is not flagged vararg and carries an index \<open>i\<close> below the largest value of
  the index type makes the parameter-description list at least \<open>i + 1\<close> long, every new
  slot being an entry with empty name and empty description, and then stores name and
  description in slot \<open>i\<close>; the other slots keep their entries.
\<close>

lemma param_index_resize:
  assumes "idx + 1 \<noteq> 0"
  shows "\<exists>descs.
      ParseTopLevel cn (ParamCommandComment False idx name children) (doc, hb)
        = Some (doc\<lparr>ParameterDescs := descs\<rparr>, hb)
      \<and> length descs = max (length (ParameterDescs doc)) (unat idx + 1)
      \<and> descs ! unat idx = \<lparr>Name = name, Description = ParseComments children cn\<rparr>
      \<and> (\<forall>j < length descs. j \<noteq> unat idx \<longrightarrow>
            descs ! j = (if j < length (ParameterDescs doc) then ParameterDescs doc ! j
                         else \<lparr>Name = [], Description = \<lparr>Data = [], Type = Normal\<rparr>\<rparr>))"
proof -
  let ?v = "ParameterDescs doc"
  let ?x = "\<lparr>Name = name, Description = ParseComments children cn\<rparr>"
  let ?w = "(?v @ replicate (Suc (unat idx) - length ?v) new_Parameters)[unat idx := ?x]"
  have len: "length ?w = max (length ?v) (unat idx + 1)" by auto
  have at: "?w ! unat idx = ?x" by (simp add: nth_append)
  have other: "\<forall>j < length ?w. j \<noteq> unat idx \<longrightarrow>
      ?w ! j = (if j < length ?v then ?v ! j
                else \<lparr>Name = [], Description = \<lparr>Data = [], Type = Normal\<rparr>\<rparr>)"
    by (auto simp: nth_append new_Parameters_def new_Paragraph_def)
  from ParseTopLevel_param [OF assms] len at other show ?thesis by blast
qed

text \<open>
  Documenting index 2 first gives a list of three slots whose slots 0 and 1 have empty name
  and description.
\<close>

lemma param_index_gap:
  "(2 :: 32 word) + 1 \<noteq> 0
   \<and> map_option ParameterDescs
        (ParsedDocumentation_ctor ''Player''
           (Some [ParamCommandComment False 2 ''c'' [ParagraphComment [TextComment '' third'']]])
           False)
       = Some [\<lparr>Name = [], Description = \<lparr>Data = [], Type = Normal\<rparr>\<rparr>,
               \<lparr>Name = [], Description = \<lparr>Data = [], Type = Normal\<rparr>\<rparr>,
               \<lparr>Name = ''c'', Description = \<lparr>Data = ['' third''], Type = Normal\<rparr>\<rparr>]"
proof -
  have h: "(2 :: 32 word) + 1 \<noteq> 0" by simp
  from param_index_resize [OF h, of "''Player''" "''c''"
      "[ParagraphComment [TextComment '' third'']]" new_ParsedDocumentation False]
  obtain descs where
    step: "ParseTopLevel ''Player''
        (ParamCommandComment False 2 ''c'' [ParagraphComment [TextComment '' third'']])
        (new_ParsedDocumentation, False)
      = Some (new_ParsedDocumentation\<lparr>ParameterDescs := descs\<rparr>, False)"
    and len: "length descs = max (length (ParameterDescs new_ParsedDocumentation)) (unat (2 :: 32 word) + 1)"
    and at: "descs ! unat (2 :: 32 word)
        = \<lparr>Name = ''c'',
           Description = ParseComments [ParagraphComment [TextComment '' third'']] ''Player''\<rparr>"
    and other: "\<forall>j < length descs. j \<noteq> unat (2 :: 32 word) \<longrightarrow>
            descs ! j = (if j < length (ParameterDescs new_ParsedDocumentation)
                         then ParameterDescs new_ParsedDocumentation ! j
                         else \<lparr>Name = [], Description = \<lparr>Data = [], Type = Normal\<rparr>\<rparr>)"
    by blast
  from len have l3: "length descs = 3" by (simp add: new_ParsedDocumentation_def)
  from other l3 have "descs ! 0 = \<lparr>Name = [], Description = \<lparr>Data = [], Type = Normal\<rparr>\<rparr>"
    and "descs ! 1 = \<lparr>Name = [], Description = \<lparr>Data = [], Type = Normal\<rparr>\<rparr>"
    by (simp_all add: new_ParsedDocumentation_def)
  moreover from at have "descs ! 2
      = \<lparr>Name = ''c'', Description = \<lparr>Data = ['' third''], Type = Normal\<rparr>\<rparr>"
    by (simp add: ParseComments_text)
  ultimately have "descs = [\<lparr>Name = [], Description = \<lparr>Data = [], Type = Normal\<rparr>\<rparr>,
               \<lparr>Name = [], Description = \<lparr>Data = [], Type = Normal\<rparr>\<rparr>,
               \<lparr>Name = ''c'', Description = \<lparr>Data = ['' third''], Type = Normal\<rparr>\<rparr>]"
    using l3 by (intro nth_equalityI) (auto simp: less_Suc_eq numeral_3_eq_3 numeral_2_eq_2)
  with step h show ?thesis
    by (simp add: ParsedDocumentation_ctor_def del: ParseTopLevel.simps)
qed

text \<open>
  C6.  Every parameter-documentation node that is not flagged vararg is to make its index
  addressable in the parameter-description list before the slot is set.  The index is an
  \<open>unsigned\<close> and \<open>idx+1\<close> is computed in that type: for the largest value, which the
  front end leaves on a parameter command that names no parameter of the declaration,
  \<open>idx+1\<close> is 0, the list is resized to no slots at all (entries documented before are
  lost), and the assignment to slot \<open>idx\<close> lies outside the list, so the constructor
  has no defined result.
\<close>

theorem param_index_unaddressable:
  "resize descs (unat ((- 1 :: 32 word) + 1)) = []
   \<and> ParseTopLevel cn (ParamCommandComment False (- 1) name children)
        (new_ParsedDocumentation, hb) = None
   \<and> ParsedDocumentation_ctor cn (Some [ParamCommandComment False (- 1) name children]) hb = None
   \<and> ParsedDocumentation_ctor cn
        (Some [ParamCommandComment False 0 ''a'' [ParagraphComment [TextComment '' first'']],
               ParamCommandComment False (- 1) name children]) hb = None"
proof -
  have h0: "(0 :: 32 word) + 1 \<noteq> 0" by simp
  have inv: "ParseTopLevel cn (ParamCommandComment False (- 1) name children) (doc, hb) = None"
    if "length (ParameterDescs doc) \<le> 1" for doc
  proof -
    have "unat (- 1 :: 32 word) = 4294967295"
      by (simp add: unsigned_minus_1_eq_mask mask_eq_exp_minus_1)
    with that show ?thesis by (simp add: resize_def)
  qed
  show ?thesis
    by (simp add: ParsedDocumentation_ctor_def inv ParseTopLevel_param [OF h0]
        new_ParsedDocumentation_def resize_def del: ParseTopLevel.simps)
qed

subsection \<open>Tutorials\<close>

lemma find_nonblank_all_blank:
  "list_all (\<lambda>s. ltrim s = []) d \<Longrightarrow> find_nonblank d i = i + length d"
  by (induction d arbitrary: i) simp_all

lemma find_nonblank_first:
  "list_all (\<lambda>s. ltrim s = []) pre \<Longrightarrow> ltrim span \<noteq> [] \<Longrightarrow>
   find_nonblank (pre @ span # post) i = i + length pre"
  by (induction pre arbitrary: i) simp_all

lemma find_first_of_ws:
  "find_first_of whitespace str 0 =
     (if \<exists>c \<in> set str. is_ws c then Some (length (takeWhile (\<lambda>c. \<not> is_ws c) str)) else None)"
  by (simp add: find_first_of_def first_index_takeWhile is_ws_def)

lemma rtrim_last: "rtrim s \<noteq> [] \<Longrightarrow> \<not> is_ws (last (rtrim s))"
proof -
  assume "rtrim s \<noteq> []"
  then have ne: "dropWhile is_ws (rev s) \<noteq> []" unfolding rtrim_def by simp
  then have "\<not> is_ws (hd (dropWhile is_ws (rev s)))" by (rule hd_dropWhile)
  moreover have "last (rtrim s) = hd (dropWhile is_ws (rev s))"
    unfolding rtrim_def using ne by (simp only: last_rev)
  ultimately show ?thesis by simp
qed

lemma dropWhile_split:
  assumes "\<exists>c \<in> set str. P c"
  obtains c rest where "dropWhile (\<lambda>c. \<not> P c) str = c # rest" and "P c"
    and "drop (length (takeWhile (\<lambda>c. \<not> P c) str) + 1) str = rest"
proof -
  let ?k = "length (takeWhile (\<lambda>c. \<not> P c) str)"
  let ?suf = "dropWhile (\<lambda>c. \<not> P c) str"
  from assms have ne: "?suf \<noteq> []" by (simp only: dropWhile_eq_Nil_conv) blast
  then obtain c rest where suf: "?suf = c # rest" by (cases ?suf) blast+
  from hd_dropWhile [OF ne] suf have pc: "P c" by simp
  have "drop ?k str = c # rest" using suf by (simp only: dropWhile_eq_drop [symmetric])
  then have "drop (Suc ?k) str = rest" by (simp only: drop_Suc tl_drop [symmetric] list.sel)
  then have "drop (?k + 1) str = rest" by simp
  with suf pc show ?thesis by (rule that)
qed

lemma fragment_nonempty:
  assumes "\<exists>c \<in> set (trim span). is_ws c"
  shows "tutorial_fragment span \<noteq> []"
proof
  let ?str = "trim span"
  let ?suf = "dropWhile (\<lambda>c. \<not> is_ws c) ?str"
  assume "tutorial_fragment span = []"
  then have allws: "\<forall>c \<in> set ?suf. is_ws c"
    unfolding tutorial_fragment_def by (simp only: ltrim_Nil_iff)
  from assms obtain c rest where suf: "?suf = c # rest"
    by (rule dropWhile_split)
  from assms have str: "?str \<noteq> []" by auto
  have "takeWhile (\<lambda>c. \<not> is_ws c) ?str @ ?suf = ?str" by (rule takeWhile_dropWhile_id)
  then have "last ?str = last ?suf" using suf by (metis last_appendR list.distinct(1))
  moreover have "\<not> is_ws (last ?str)" using str unfolding trim_def by (rule rtrim_last)
  moreover have "last ?suf \<in> set ?suf" unfolding suf by (rule last_in_set) simp
  ultimately show False using allws by (simp only:) blast
qed

lemma fragment_after_url:
  assumes "\<exists>c \<in> set str. is_ws c"
  shows "ltrim (substr_from str (length (takeWhile (\<lambda>c. \<not> is_ws c) str) + 1))
         = ltrim (dropWhile (\<lambda>c. \<not> is_ws c) str)"
proof -
  from assms obtain c rest where suf: "dropWhile (\<lambda>c. \<not> is_ws c) str = c # rest"
    and ws: "is_ws c"
    and rest: "drop (length (takeWhile (\<lambda>c. \<not> is_ws c) str) + 1) str = rest"
    by (rule dropWhile_split)
  have "ltrim (c # rest) = ltrim rest" using ws by (simp add: ltrim_def)
  then show ?thesis unfolding substr_from_def suf rest by simp
qed

lemma ParseBlock_tutorial:
  "ParseBlock cn ''tutorial'' args children doc hb =
     (let paragraph = ParseComments children cn;
          it = find_nonblank (Data paragraph) 0 in
      if it \<noteq> length (Data paragraph) then
        (let str = trim (Data paragraph ! it) in
         case find_first_of whitespace str 0 of
           None \<Rightarrow>
             (doc\<lparr>Tutorials := Tutorials doc
                @ [\<lparr>URL = str,
                    Title = paragraph\<lparr>Data := take it (Data paragraph)
                              @ drop (Suc it) (Data paragraph)\<rparr>\<rparr>]\<rparr>,
              hb)
         | Some pos \<Rightarrow>
             (doc\<lparr>Tutorials := Tutorials doc
                @ [\<lparr>URL = substr str 0 pos,
                    Title = paragraph\<lparr>Data := (Data paragraph)
                              [it := ltrim (substr_from str (pos + 1))]\<rparr>\<rparr>]\<rparr>,
              hb))
      else (doc, hb))"
  by (simp add: ParseBlock_def Let_def)

lemma ParseBlock_tutorial_blank:
  assumes "list_all (\<lambda>s. ltrim s = []) (Data (ParseComments children cn))"
  shows "ParseBlock cn ''tutorial'' args children doc hb = (doc, hb)"
  using assms by (simp add: ParseBlock_tutorial find_nonblank_all_blank Let_def)

lemma ParseBlock_tutorial_entry:
  assumes a: "Data (ParseComments children cn) = pre @ span # post
        \<and> list_all (\<lambda>s. ltrim s = []) pre \<and> ltrim span \<noteq> []"
  shows "ParseBlock cn ''tutorial'' args children doc hb =
            (doc\<lparr>Tutorials := Tutorials doc
               @ [\<lparr>URL = tutorial_url span,
                   Title = (ParseComments children cn)
                     \<lparr>Data := pre @ tutorial_title_spans span @ post\<rparr>\<rparr>]\<rparr>, hb)"
proof -
  let ?p = "ParseComments children cn"
  let ?str = "trim span"
  from a have it: "find_nonblank (Data ?p) 0 = length pre"
    by (simp add: find_nonblank_first)
  from a have nth: "Data ?p ! length pre = span" by simp
  from a have neq: "length pre \<noteq> length (Data ?p)" by simp
  show ?thesis
  proof (cases "\<exists>c \<in> set ?str. is_ws c")
    case True
    then have f: "find_first_of whitespace ?str 0
        = Some (length (takeWhile (\<lambda>c. \<not> is_ws c) ?str))"
      by (simp add: find_first_of_ws)
    have frag: "ltrim (substr_from ?str (length (takeWhile (\<lambda>c. \<not> is_ws c) ?str) + 1))
        = tutorial_fragment span"
      unfolding tutorial_fragment_def by (rule fragment_after_url [OF True])
    have spans: "tutorial_title_spans span = [tutorial_fragment span]"
      using fragment_nonempty [OF True] by (simp add: tutorial_title_spans_def)
    have upd: "(Data ?p)[length pre := tutorial_fragment span]
        = pre @ [tutorial_fragment span] @ post"
      using a by simp
    show ?thesis
      unfolding ParseBlock_tutorial Let_def it nth
      using neq
      by (simp only: if_True f option.case frag spans upd substr_kind tutorial_url_def
          not_False_eq_True)
  next
    case False
    then have f: "find_first_of whitespace ?str 0 = None"
      by (simp add: find_first_of_ws)
    from False have url: "tutorial_url span = ?str"
      by (simp add: tutorial_url_def)
    from False have dw: "dropWhile (\<lambda>c. \<not> is_ws c) ?str = []"
      by (simp only: dropWhile_eq_Nil_conv) blast
    have spans: "tutorial_title_spans span = []"
      unfolding tutorial_title_spans_def tutorial_fragment_def dw ltrim_def by simp
    have er: "take (length pre) (Data ?p) @ drop (Suc (length pre)) (Data ?p) = pre @ post"
      using a by simp
    show ?thesis
      unfolding ParseBlock_tutorial Let_def it nth
      using neq
      by (simp only: if_True f option.case url spans er append_Nil not_False_eq_True)
  qed
qed

text \<open>
  C9 (amended).  A \<open>tutorial\<close> block command whose paragraph has no non-blank span leaves
  the record unchanged.  Otherwise the first non-blank span, trimmed, is split at its first
  run of whitespace into the URL and the remaining fragment, and exactly one tutorial entry
  is appended: its URL is that URL, its title is the paragraph of the command in which the
  span is replaced by the fragment (removed when there is no fragment), all other spans of
  the paragraph staying in the title.
\<close>

theorem tutorial_block:
  "(list_all (\<lambda>s. ltrim s = []) (Data (ParseComments children cn))
      \<longrightarrow> ParseBlock cn ''tutorial'' args children doc hb = (doc, hb))
   \<and> (Data (ParseComments children cn) = pre @ span # post
        \<and> list_all (\<lambda>s. ltrim s = []) pre \<and> ltrim span \<noteq> []
      \<longrightarrow> ParseBlock cn ''tutorial'' args children doc hb =
            (doc\<lparr>Tutorials := Tutorials doc
               @ [\<lparr>URL = tutorial_url span,
                   Title = (ParseComments children cn)
                     \<lparr>Data := pre @ tutorial_title_spans span @ post\<rparr>\<rparr>]\<rparr>, hb))"
  using ParseBlock_tutorial_blank ParseBlock_tutorial_entry by blast

lemmas trim_eval = trim_def ltrim_def rtrim_def is_ws_def whitespace_def

theorem tutorial_block_witness:
  "list_all (\<lambda>s. ltrim s = []) (Data (ParseComments [ParagraphComment [TextComment ''  '']] ''Player''))
   \<and> ParseBlock ''Player'' ''tutorial'' [] [ParagraphComment [TextComment ''  '']]
         new_ParsedDocumentation False = (new_ParsedDocumentation, False)
   \<and> Data (ParseComments [ParagraphComment [TextComment '' https://example.org My guide'']] ''Player'')
       = [] @ '' https://example.org My guide'' # []
   \<and> list_all (\<lambda>s. ltrim s = []) []
   \<and> ltrim '' https://example.org My guide'' \<noteq> []
   \<and> Tutorials (fst (ParseBlock ''Player'' ''tutorial'' []
         [ParagraphComment [TextComment '' https://example.org My guide'']]
         new_ParsedDocumentation False))
       = [\<lparr>URL = ''https://example.org'', Title = \<lparr>Data = [''My guide''], Type = Normal\<rparr>\<rparr>]"
  using tutorial_block [of "[ParagraphComment [TextComment ''  '']]" "''Player''" "[]"
      new_ParsedDocumentation False "[]" "'' https://example.org My guide''" "[]"]
    tutorial_block [of "[ParagraphComment [TextComment '' https://example.org My guide'']]"
      "''Player''" "[]" new_ParsedDocumentation False "[]" "'' https://example.org My guide''" "[]"]
  by (simp add: ParseComments_text trim_eval tutorial_url_def tutorial_fragment_def
      tutorial_title_spans_def new_ParsedDocumentation_def)

text \<open>
  C9 as stated fails when the paragraph has further spans: for the command text
  \<open>https://example.org My\<close> followed by the inline command \<open>b guide\<close> the fragment is
  \<open>My\<close>, but the title of the appended entry has the two spans \<open>My\<close> and \<open>[b]guide[/b]\<close>.
\<close>

theorem tutorial_title_counterexample:
  "Tutorials (fst (ParseBlock ''Player'' ''tutorial'' []
      [ParagraphComment [TextComment '' https://example.org My '',
                         InlineCommandComment ''b'' [''guide'']]]
      new_ParsedDocumentation False))
     = [\<lparr>URL = ''https://example.org'',
         Title = \<lparr>Data = [''My'', ''[b]guide[/b]''], Type = Normal\<rparr>\<rparr>]
   \<and> Tutorial_claimed '' https://example.org My ''
     = \<lparr>URL = ''https://example.org'', Title = \<lparr>Data = [''My''], Type = Normal\<rparr>\<rparr>
   \<and> Tutorials (fst (ParseBlock ''Player'' ''tutorial'' []
      [ParagraphComment [TextComment '' https://example.org My '',
                         InlineCommandComment ''b'' [''guide'']]]
      new_ParsedDocumentation False))
     \<noteq> Tutorials new_ParsedDocumentation @ [Tutorial_claimed '' https://example.org My '']"
proof -
  have p: "ParseComments [ParagraphComment [TextComment '' https://example.org My '',
                         InlineCommandComment ''b'' [''guide'']]] ''Player''
      = \<lparr>Data = [] @ '' https://example.org My '' # [''[b]guide[/b]''], Type = Normal\<rparr>"
    by (simp add: ParseComments_def new_Paragraph_def add_paragraph_def add_text_def
        ParseInlineCommand_def)
  have code: "Tutorials (fst (ParseBlock ''Player'' ''tutorial'' []
      [ParagraphComment [TextComment '' https://example.org My '',
                         InlineCommandComment ''b'' [''guide'']]]
      new_ParsedDocumentation False))
     = [\<lparr>URL = ''https://example.org'',
         Title = \<lparr>Data = [''My'', ''[b]guide[/b]''], Type = Normal\<rparr>\<rparr>]"
    using ParseBlock_tutorial_entry [of "[ParagraphComment [TextComment '' https://example.org My '',
                         InlineCommandComment ''b'' [''guide'']]]" "''Player''" "[]"
        "'' https://example.org My ''" "[''[b]guide[/b]'']" "[]" new_ParsedDocumentation False]
    by (simp add: p trim_eval tutorial_url_def tutorial_fragment_def
      tutorial_title_spans_def new_ParsedDocumentation_def)
  have claimed: "Tutorial_claimed '' https://example.org My ''
     = \<lparr>URL = ''https://example.org'', Title = \<lparr>Data = [''My''], Type = Normal\<rparr>\<rparr>"
    by (simp add: Tutorial_claimed_def trim_eval tutorial_url_def tutorial_fragment_def
      tutorial_title_spans_def)
  show ?thesis
    unfolding code claimed by (simp add: new_ParsedDocumentation_def)
qed

subsection \<open>Brief and detailed description\<close>

lemmas ctor_eval =
  ParsedDocumentation_ctor_def two_paragraphs_def brief_command_def ParseComments_def
  add_text_def add_paragraph_def
  ParseBlock_def Paragraph_empty_def new_ParsedDocumentation_def new_Paragraph_def
  ltrim_def is_ws_def whitespace_def Let_def

text \<open>
  When the first read of \<open>hasBriefTag\<close> yields false, two bare paragraphs give the brief
  \<open>Summary.\<close> and the detailed description \<open>[Body.]\<close>, and a following explicit \<open>brief\<close>
  command demotes the brief to the front of the detailed description.
\<close>

lemma brief_demotion_flag_clear:
  "map_option (\<lambda>d. (Brief d, Detailed d))
      (ParsedDocumentation_ctor cn (Some two_paragraphs) False)
     = Some (\<lparr>Data = [''Summary.''], Type = Normal\<rparr>, [\<lparr>Data = [''Body.''], Type = Normal\<rparr>])
   \<and> map_option (\<lambda>d. (Brief d, Detailed d))
      (ParsedDocumentation_ctor cn (Some (two_paragraphs @ [brief_command])) False)
     = Some (\<lparr>Data = [''New summary.''], Type = Normal\<rparr>,
             [\<lparr>Data = [''Summary.''], Type = Normal\<rparr>, \<lparr>Data = [''Body.''], Type = Normal\<rparr>])"
  by (simp add: ctor_eval)

text \<open>
  C1.  Two bare paragraphs \<open>Summary.\<close> and \<open>Body.\<close> are to give the brief \<open>Summary.\<close> and
  the detailed description \<open>[Body.]\<close>.  The constructor reads \<open>hasBriefTag\<close> before
  anything is assigned to it; when that read yields true, the brief stays empty and both
  paragraphs go to the detailed description.
\<close>

theorem brief_flag_indeterminate:
  "map_option (\<lambda>d. (Brief d, Detailed d))
      (ParsedDocumentation_ctor cn (Some two_paragraphs) True)
     = Some (\<lparr>Data = [], Type = Normal\<rparr>,
             [\<lparr>Data = [''Summary.''], Type = Normal\<rparr>, \<lparr>Data = [''Body.''], Type = Normal\<rparr>])"
  by (simp add: ctor_eval)


end
